theory Spec2Isabelle
  imports Main
begin

section \<open>Platform strings and numbers\<close>

text \<open>
  JavaScript strings are modelled as \<^typ>\<open>string\<close> (lists of characters). The operations
  below are the ones \<^verbatim>\<open>src/index.ts\<close> and \<^verbatim>\<open>src/certs.ts\<close> apply to them.
\<close>

text \<open>\<^verbatim>\<open>s.split(sep)[0]\<close> for a one-character separator: the part before its first occurrence.\<close>

definition split_first :: "string \<Rightarrow> char \<Rightarrow> string" where
  "split_first s sep = takeWhile (\<lambda>c. c \<noteq> sep) s"

text \<open>\<^verbatim>\<open>s.endsWith(suf)\<close>.\<close>

definition endsWith :: "string \<Rightarrow> string \<Rightarrow> bool" where
  "endsWith s suf = (length suf \<le> length s \<and> drop (length s - length suf) s = suf)"

text \<open>\<^verbatim>\<open>s.slice(0, -n)\<close>: the end index is \<open>max (length s - n) 0\<close>.\<close>

definition slice_end :: "string \<Rightarrow> nat \<Rightarrow> string" where
  "slice_end s n = take (length s - n) s"

text \<open>\<^verbatim>\<open>s.toLowerCase()\<close> on the ASCII letters (header names and tokens are ASCII).\<close>

definition lower_char :: "char \<Rightarrow> char" where
  "lower_char c =
     (case map_of (zip ''ABCDEFGHIJKLMNOPQRSTUVWXYZ'' ''abcdefghijklmnopqrstuvwxyz'') c of
        Some l \<Rightarrow> l
      | None \<Rightarrow> c)"

definition toLowerCase :: "string \<Rightarrow> string" where
  "toLowerCase s = map lower_char s"

text \<open>
  \<^verbatim>\<open>String(n)\<close>, \<^verbatim>\<open>`${n}`\<close> and \<^verbatim>\<open>n.toString(16)\<close> for integral numbers: the digits in
  radix 10 or 16, most significant first, with a leading minus sign for a negative number.
\<close>

definition digit_char :: "nat \<Rightarrow> char" where
  "digit_char d = ''0123456789abcdef'' ! (d mod 16)"

function radix_digits :: "nat \<Rightarrow> nat \<Rightarrow> string" where
  "radix_digits b n =
     (if n < b \<or> b < 2 then [digit_char n]
      else radix_digits b (n div b) @ [digit_char (n mod b)])"
  by pat_completeness auto
termination
  by (relation "measure snd") auto

declare radix_digits.simps [simp del]

definition String_nat :: "nat \<Rightarrow> string" where
  "String_nat n = radix_digits 10 n"

definition toString16 :: "int \<Rightarrow> string" where
  "toString16 i = (if i < 0 then CHR ''-'' # radix_digits 16 (nat (- i)) else radix_digits 16 (nat i))"

section \<open>The daemon: \<^verbatim>\<open>src/index.ts\<close>\<close>

subsection \<open>Requests, responses, headers\<close>

text \<open>
  A \<^verbatim>\<open>Headers\<close> object is a list of name/value pairs whose names compare without regard
  to case. \<^verbatim>\<open>get\<close> joins the values of all matching entries with \<^verbatim>\<open>", "\<close> and yields
  \<^verbatim>\<open>null\<close> when there is none; \<^verbatim>\<open>delete\<close> removes every matching entry.
\<close>

type_synonym headers = "(string \<times> string) list"

definition name_matches :: "string \<Rightarrow> string \<times> string \<Rightarrow> bool" where
  "name_matches name kv = (toLowerCase (fst kv) = toLowerCase name)"

fun join_values :: "string list \<Rightarrow> string" where
  "join_values [] = []"
| "join_values [v] = v"
| "join_values (v # vs) = v @ '', '' @ join_values vs"

definition headers_get :: "headers \<Rightarrow> string \<Rightarrow> string option" where
  "headers_get hs name =
     (case filter (name_matches name) hs of
        [] \<Rightarrow> None
      | kvs \<Rightarrow> Some (join_values (map snd kvs)))"

definition headers_delete :: "headers \<Rightarrow> string \<Rightarrow> headers" where
  "headers_delete hs name = filter (\<lambda>kv. \<not> name_matches name kv) hs"

text \<open>
  A parsed \<^verbatim>\<open>URL\<close>. The URL of a request the server hands to its handler has the scheme
  \<^verbatim>\<open>http:\<close> or \<^verbatim>\<open>https:\<close>. \<^verbatim>\<open>port\<close> is the empty string when the URL addresses the default
  port of its scheme; \<^verbatim>\<open>search\<close> includes the question mark.
\<close>

datatype protocol = Http | Https

fun default_port :: "protocol \<Rightarrow> nat" where
  "default_port Http = 80"
| "default_port Https = 443"

record url =
  url_protocol :: protocol
  url_hostname :: string
  url_port :: string
  url_pathname :: string
  url_search :: string

text \<open>
  The setter of \<^verbatim>\<open>url.port\<close>, for the decimal text of a natural number as \<^verbatim>\<open>String(n)\<close>
  gives it: a number above 65535 is no port and the URL stays as it is; the default port of
  the scheme is stored as the empty string; any other port is stored as its decimal text.
  The setter of \<^verbatim>\<open>url.hostname\<close> stores the host name \<^verbatim>\<open>localhost\<close> as given.
\<close>

definition url_set_port :: "url \<Rightarrow> nat \<Rightarrow> url" where
  "url_set_port u n =
     (if n > 65535 then u
      else if n = default_port (url_protocol u) then u\<lparr>url_port := []\<rparr>
      else u\<lparr>url_port := String_nat n\<rparr>)"

text \<open>The port a URL addresses, in decimal: the stored one, or the scheme's default.\<close>

definition url_effective_port :: "url \<Rightarrow> string" where
  "url_effective_port u =
     (if url_port u = [] then String_nat (default_port (url_protocol u)) else url_port u)"

datatype redirect_mode = Follow | Manual | Error

text \<open>
  A \<^verbatim>\<open>Request\<close>. The body is \<^verbatim>\<open>null\<close> (\<open>None\<close>) or the bytes of the stream.
  \<^verbatim>\<open>req.url\<close> is held parsed: the daemon only reads it through \<^verbatim>\<open>new URL(req.url)\<close>.
\<close>

record request =
  req_url :: url
  req_method :: string
  req_headers :: headers
  req_body :: "string option"
  req_redirect :: redirect_mode

record response =
  resp_status :: nat
  resp_headers :: headers
  resp_body :: string

text \<open>
  \<^verbatim>\<open>new Response(text, { status })\<close> with a string body: the platform labels it
  \<^verbatim>\<open>text/plain;charset=utf-8\<close>.
\<close>

definition text_response :: "string \<Rightarrow> nat \<Rightarrow> response" where
  "text_response text status =
     \<lparr>resp_status = status,
      resp_headers = [(''content-type'', ''text/plain;charset=utf-8'')],
      resp_body = text\<rparr>"

subsection \<open>\<^verbatim>\<open>extractSubdomain\<close>\<close>

text \<open>
  \<^verbatim>\<open>
  function extractSubdomain(host: string | null): string | null {
    if (!host) return null;
    const hostname = host.split(":")[0];
    if (hostname === "localhost") return null;
    if (!hostname.endsWith(".localhost")) return null;
    const subdomain = hostname.slice(0, -".localhost".length);
    return subdomain || null;
  }
  \<close>
  \<^verbatim>\<open>!host\<close> holds for \<^verbatim>\<open>null\<close> and for the empty string, and so does
  \<^verbatim>\<open>subdomain || null\<close> turn the empty subdomain into \<^verbatim>\<open>null\<close>.
\<close>

definition extractSubdomain :: "string option \<Rightarrow> string option" where
  "extractSubdomain host =
     (case host of
        None \<Rightarrow> None
      | Some h \<Rightarrow>
          if h = [] then None
          else
            let hostname = split_first h (CHR '':'') in
            if hostname = ''localhost'' then None
            else if \<not> endsWith hostname ''.localhost'' then None
            else
              let subdomain = slice_end hostname (length ''.localhost'') in
              if subdomain = [] then None else Some subdomain)"

subsection \<open>\<^verbatim>\<open>renderDashboard\<close>\<close>

text \<open>
  Modelled from the spec: the element type of what \<^verbatim>\<open>scanServers()\<close> returns is declared in
  \<^verbatim>\<open>src/scan.ts\<close>, which is not among the sources; the spec gives it as
  \<^verbatim>\<open>{name, port, pid, command}\<close>, the four fields \<^verbatim>\<open>renderDashboard\<close> reads.
\<close>

record server =
  srv_name :: string
  srv_port :: nat
  srv_pid :: nat
  srv_command :: string

text \<open>
  The page is the template of the source, piece by piece. The two characters outside ASCII
  (the arrow and the middle dot) are written as their UTF-8 bytes. \<open>PORT\<close> is the constant
  \<^verbatim>\<open>parseInt(process.env.PORT || "9999", 10)\<close>, a parameter here.
\<close>

definition dashboard_head :: "nat \<Rightarrow> string" where
  \<open>dashboard_head PORT =
     ''<!DOCTYPE html>\<newline><html>\<newline><head>\<newline>  <title>localhostess</title>\<newline>  <style>\<newline>'' @
     ''    body { font-family: system-ui, sans-serif; max-width: 800px; margin: 40px auto; padding: 0 20px; }\<newline>'' @
     ''    h1 { color: #333; }\<newline>'' @
     ''    .server { background: #f5f5f5; border-radius: 8px; padding: 16px; margin: 12px 0; }\<newline>'' @
     ''    .server a { color: #0066cc; font-size: 1.2em; font-weight: bold; }\<newline>'' @
     ''    .meta { color: #666; font-size: 0.9em; margin-top: 8px; }\<newline>'' @
     ''    .empty { color: #999; font-style: italic; }\<newline>'' @
     ''    code { background: #e8e8e8; padding: 2px 6px; border-radius: 4px; }\<newline>'' @
     ''  </style>\<newline></head>\<newline><body>\<newline>  <h1>localhostess</h1>\<newline>'' @
     ''  <p>Routing <code>*.localhost:'' @ String_nat PORT @ ''</code> to local services</p>\<newline>''\<close>

definition dashboard_empty :: string where
  \<open>dashboard_empty =
     ''\<newline>  <p class="empty">No servers found with NAME env var.</p>\<newline>'' @
     ''  <p>Start a server with:</p>\<newline>'' @
     ''  <pre><code>NAME=myapp bun run server.ts</code></pre>\<newline>''\<close>

definition dashboard_server :: "nat \<Rightarrow> server \<Rightarrow> string" where
  \<open>dashboard_server PORT s =
     ''\<newline>  <div class="server">\<newline>    <a href="http://'' @ srv_name s @ ''.localhost:'' @ String_nat PORT @
     ''">'' @ srv_name s @ ''.localhost:'' @ String_nat PORT @ ''</a>\<newline>    <span>'' @
     [CHR 0xE2, CHR 0x86, CHR 0x92] @ '' :'' @ String_nat (srv_port s) @ ''</span>\<newline>'' @
     ''    <div class="meta">PID '' @ String_nat (srv_pid s) @ '' '' @ [CHR 0xC2, CHR 0xB7] @ '' '' @
     take 60 (srv_command s) @ ''...</div>\<newline>  </div>\<newline>''\<close>

definition dashboard_foot :: string where
  \<open>dashboard_foot = ''\<newline></body>\<newline></html>''\<close>

definition dashboard_html :: "nat \<Rightarrow> server list \<Rightarrow> string" where
  "dashboard_html PORT servers =
     dashboard_head PORT @
     (if length servers = 0 then dashboard_empty
      else ''<h2>Active Services</h2>'' @ concat (map (dashboard_server PORT) servers)) @
     dashboard_foot"

definition renderDashboard :: "nat \<Rightarrow> server list \<Rightarrow> response" where
  "renderDashboard PORT servers =
     \<lparr>resp_status = 200,
      resp_headers = [(''Content-Type'', ''text/html; charset=utf-8'')],
      resp_body = dashboard_html PORT servers\<rparr>"

subsection \<open>\<^verbatim>\<open>isWebSocketUpgrade\<close>\<close>

text \<open>\<^verbatim>\<open>req.headers.get("upgrade")?.toLowerCase() === "websocket"\<close>\<close>

definition isWebSocketUpgrade :: "request \<Rightarrow> bool" where
  "isWebSocketUpgrade req =
     (case headers_get (req_headers req) ''upgrade'' of
        None \<Rightarrow> False
      | Some upgrade \<Rightarrow> toLowerCase upgrade = ''websocket'')"

subsection \<open>The mapping cache and \<^verbatim>\<open>getMapping\<close>\<close>

text \<open>
  \<^verbatim>\<open>
  const CACHE_TTL_MS = 5000;
  let mappingCache: Map<string, number> = new Map();
  let lastScan = 0;

  async function getMapping(): Promise<Map<string, number>> {
    const now = Date.now();
    if (now - lastScan > CACHE_TTL_MS) {
      mappingCache = await buildMapping();
      lastScan = now;
    }
    return mappingCache;
  }
  \<close>
  The two module variables are the state. Times are milliseconds, as \<^typ>\<open>int\<close>.
\<close>

type_synonym mapping = "string \<rightharpoonup> nat"

record state =
  mappingCache :: mapping
  lastScan :: int

definition initial_state :: state where
  "initial_state = \<lparr>mappingCache = Map.empty, lastScan = 0\<rparr>"

definition CACHE_TTL_MS :: int where
  "CACHE_TTL_MS = 5000"

text \<open>
  An \<^verbatim>\<open>async\<close> function runs without interruption up to an \<^verbatim>\<open>await\<close> and, once the awaited
  promise has settled, from there to the next one. \<^verbatim>\<open>getMapping\<close> has one \<^verbatim>\<open>await\<close>, hence
  two such segments: from the entry to either the \<^verbatim>\<open>return\<close> (cache fresh) or the call of
  \<^verbatim>\<open>buildMapping()\<close>, where it is suspended holding its local \<^verbatim>\<open>now\<close>; and from the result
  of \<^verbatim>\<open>buildMapping()\<close> through the two assignments to the \<^verbatim>\<open>return\<close>.
\<close>

datatype getMapping_point = Returned mapping | AwaitBuildMapping int

definition getMapping_enter :: "int \<Rightarrow> state \<Rightarrow> getMapping_point" where
  "getMapping_enter now st =
     (if now - lastScan st > CACHE_TTL_MS then AwaitBuildMapping now
      else Returned (mappingCache st))"

definition getMapping_resume :: "int \<Rightarrow> mapping \<Rightarrow> state \<Rightarrow> mapping \<times> state" where
  "getMapping_resume now built st =
     (let st' = st\<lparr>mappingCache := built\<rparr>;
          st'' = st'\<lparr>lastScan := now\<rparr>
      in (mappingCache st'', st''))"

text \<open>
  What one request meets outside the daemon: the clock, the results of the two functions
  of \<^verbatim>\<open>src/scan.ts\<close>, of \<^verbatim>\<open>server.upgrade\<close> and of the platform's \<^verbatim>\<open>fetch\<close>.

  Modelled from the spec: \<^verbatim>\<open>src/scan.ts\<close> is not among the sources. The spec describes
  \<^verbatim>\<open>buildMapping\<close> as yielding a name-to-port mapping and \<^verbatim>\<open>scanServers\<close> a sequence of
  services, neither throwing into the request path; they are taken as the values they yield.

  \<open>env_fetch\<close> is the outcome of the \<^verbatim>\<open>try\<close> block of \<^verbatim>\<open>proxyRequest\<close> for the request built
  there: \<open>Inr\<close> the response \<^verbatim>\<open>fetch\<close> resolves to, \<open>Inl\<close> the text of what was thrown.
\<close>

record env =
  env_now :: int
  env_buildMapping :: mapping
  env_scanServers :: "server list"
  env_upgrade :: bool
  env_fetch :: "request \<Rightarrow> string + response"

text \<open>The calls a request makes, in order: the observable trace of the handler.\<close>

datatype call =
    ScanServers
  | GetMapping
  | BuildMapping
  | ServerUpgrade string string
  | BackendFetch request

text \<open>\<^verbatim>\<open>getMapping\<close> run by one caller with nothing in between its two segments.\<close>

definition getMapping :: "env \<Rightarrow> state \<Rightarrow> mapping \<times> call list \<times> state" where
  "getMapping e st =
     (case getMapping_enter (env_now e) st of
        Returned m \<Rightarrow> (m, [], st)
      | AwaitBuildMapping now \<Rightarrow>
          (let (m, st') = getMapping_resume now (env_buildMapping e) st
           in (m, [BuildMapping], st')))"

subsection \<open>\<^verbatim>\<open>proxyRequest\<close>\<close>

text \<open>
  \<^verbatim>\<open>
  async function proxyRequest(req: Request, targetPort: number): Promise<Response> {
    const url = new URL(req.url);
    url.hostname = "localhost";
    url.port = String(targetPort);
    try {
      const headers = new Headers(req.headers);
      headers.delete("If-None-Match");
      headers.delete("If-Modified-Since");
      const proxyReq = new Request(url.toString(), {
        method: req.method, headers, body: req.body, redirect: "manual",
      });
      return await fetch(proxyReq);
    } catch (e) {
      return new Response(`Failed to proxy to port ${targetPort}: ${e}`, { status: 502 });
    }
  }
  \<close>
\<close>

definition proxy_url :: "request \<Rightarrow> nat \<Rightarrow> url" where
  "proxy_url req targetPort =
     (let url = req_url req;
          url = url\<lparr>url_hostname := ''localhost''\<rparr>;
          url = url_set_port url targetPort
      in url)"

definition proxy_headers :: "request \<Rightarrow> headers" where
  "proxy_headers req =
     (let headers = req_headers req;
          headers = headers_delete headers ''If-None-Match'';
          headers = headers_delete headers ''If-Modified-Since''
      in headers)"

definition proxyReq :: "request \<Rightarrow> nat \<Rightarrow> request" where
  "proxyReq req targetPort =
     \<lparr>req_url = proxy_url req targetPort,
      req_method = req_method req,
      req_headers = proxy_headers req,
      req_body = req_body req,
      req_redirect = Manual\<rparr>"

definition proxyRequest :: "env \<Rightarrow> request \<Rightarrow> nat \<Rightarrow> response \<times> call list" where
  "proxyRequest e req targetPort =
     (case env_fetch e (proxyReq req targetPort) of
        Inr resp \<Rightarrow> (resp, [BackendFetch (proxyReq req targetPort)])
      | Inl err \<Rightarrow>
          (text_response (''Failed to proxy to port '' @ String_nat targetPort @ '': '' @ err) 502,
           [BackendFetch (proxyReq req targetPort)]))"

subsection \<open>The request handler \<^verbatim>\<open>fetch\<close>\<close>

text \<open>
  \<^verbatim>\<open>
  async fetch(req, server) {
    const host = req.headers.get("host");
    const subdomain = extractSubdomain(host);
    if (!subdomain || subdomain === "_") {
      return renderDashboard();
    }
    const mapping = await getMapping();
    const targetPort = mapping.get(subdomain);
    if (!targetPort) {
      return new Response(`No server found for "${subdomain}.localhost"\n`, { status: 404 });
    }
    if (isWebSocketUpgrade(req)) {
      const url = new URL(req.url);
      const backendUrl = `ws://localhost:${targetPort}${url.pathname}${url.search}`;
      const upgraded = server.upgrade(req, { data: { backendUrl, subdomain } });
      if (!upgraded) {
        return new Response("WebSocket upgrade failed", { status: 400 });
      }
      return undefined as unknown as Response;
    }
    return proxyRequest(req, targetPort);
  }
  \<close>
  \<^verbatim>\<open>!targetPort\<close> holds when the map has no entry and when the entry is the number 0.
  The handler answers with a response or, after a successful upgrade, with \<^verbatim>\<open>undefined\<close>.
  The \<^verbatim>\<open>console.log\<close> lines are left out: they touch neither the state nor the answer.
\<close>

datatype reply = Respond response | Upgraded

definition not_found :: "string \<Rightarrow> response" where
  \<open>not_found subdomain =
     text_response (''No server found for "'' @ subdomain @ ''.localhost"\<newline>'') 404\<close>

definition fetch :: "nat \<Rightarrow> env \<Rightarrow> request \<Rightarrow> state \<Rightarrow> reply \<times> call list \<times> state" where
  "fetch PORT e req st =
     (let host = headers_get (req_headers req) ''host'' in
      case extractSubdomain host of
        None \<Rightarrow> (Respond (renderDashboard PORT (env_scanServers e)), [ScanServers], st)
      | Some subdomain \<Rightarrow>
          if subdomain = ''_'' then
            (Respond (renderDashboard PORT (env_scanServers e)), [ScanServers], st)
          else
            (let (mapping, cs, st') = getMapping e st in
             (case mapping subdomain of
                None \<Rightarrow> (Respond (not_found subdomain), GetMapping # cs, st')
              | Some targetPort \<Rightarrow>
                  if targetPort = 0 then (Respond (not_found subdomain), GetMapping # cs, st')
                  else if isWebSocketUpgrade req then
                    (let url = req_url req;
                         backendUrl = ''ws://localhost:'' @ String_nat targetPort @
                                      url_pathname url @ url_search url
                     in if \<not> env_upgrade e then
                          (Respond (text_response ''WebSocket upgrade failed'' 400),
                           (GetMapping # cs) @ [ServerUpgrade backendUrl subdomain], st')
                        else
                          (Upgraded, (GetMapping # cs) @ [ServerUpgrade backendUrl subdomain], st'))
                  else
                    (let (resp, ps) = proxyRequest e req targetPort
                     in (Respond resp, (GetMapping # cs) @ ps, st')))))"

subsection \<open>Several requests in flight\<close>

text \<open>
  The daemon serves requests on one event loop: the segments of different calls of
  \<^verbatim>\<open>getMapping\<close> run one at a time, in any order in which each call's second segment comes
  after its first. A call is either not yet started, suspended at its \<^verbatim>\<open>await\<close> with its
  \<^verbatim>\<open>now\<close>, or finished with the mapping it returned. \<open>Enter i now\<close> runs the first segment
  of call \<open>i\<close> at clock reading \<open>now\<close>; \<open>Resolve i built\<close> settles the promise call \<open>i\<close>
  waits on and runs its second segment. \<open>sys_refreshes\<close> counts the calls of
  \<^verbatim>\<open>buildMapping()\<close>.
\<close>

datatype task = NotStarted | Suspended int | Finished mapping

record system =
  sys_state :: state
  sys_tasks :: "nat \<Rightarrow> task"
  sys_refreshes :: nat

datatype event = Enter nat int | Resolve nat mapping

definition initial_system :: system where
  "initial_system =
     \<lparr>sys_state = initial_state, sys_tasks = (\<lambda>_. NotStarted), sys_refreshes = 0\<rparr>"

definition getMapping_step :: "event \<Rightarrow> system \<Rightarrow> system" where
  "getMapping_step ev s =
     (case ev of
        Enter i now \<Rightarrow>
          (case sys_tasks s i of
             NotStarted \<Rightarrow>
               (case getMapping_enter now (sys_state s) of
                  Returned m \<Rightarrow> s\<lparr>sys_tasks := (sys_tasks s)(i := Finished m)\<rparr>
                | AwaitBuildMapping n \<Rightarrow>
                    s\<lparr>sys_tasks := (sys_tasks s)(i := Suspended n),
                      sys_refreshes := sys_refreshes s + 1\<rparr>)
           | _ \<Rightarrow> s)
      | Resolve i built \<Rightarrow>
          (case sys_tasks s i of
             Suspended n \<Rightarrow>
               (let (m, st') = getMapping_resume n built (sys_state s)
                in s\<lparr>sys_state := st', sys_tasks := (sys_tasks s)(i := Finished m)\<rparr>)
           | _ \<Rightarrow> s))"

fun run :: "event list \<Rightarrow> system \<Rightarrow> system" where
  "run [] s = s"
| "run (ev # evs) s = run evs (getMapping_step ev s)"

text \<open>Calls \<open>k\<close>, \<open>k + 1\<close>, ... entering one after the other at the given clock readings.\<close>

fun enters :: "nat \<Rightarrow> int list \<Rightarrow> event list" where
  "enters k [] = []"
| "enters k (now # nows) = Enter k now # enters (Suc k) nows"

section \<open>The WebSocket bridge of \<^verbatim>\<open>src/index.ts\<close>\<close>

text \<open>
  \<^verbatim>\<open>
  const wsBackends = new WeakMap<object, WebSocket>();

  websocket: {
    open(clientWs) {
      const { backendUrl, subdomain } = clientWs.data;
      const backendWs = new WebSocket(backendUrl);
      wsBackends.set(clientWs, backendWs);
      backendWs.addEventListener("open", () => { });
      backendWs.addEventListener("message", (event) => {
        try {
          if (typeof event.data === "string") clientWs.send(event.data);
          else if (event.data instanceof ArrayBuffer) clientWs.send(new Uint8Array(event.data));
          else if (event.data instanceof Blob)
            event.data.arrayBuffer().then((buf) => { clientWs.send(new Uint8Array(buf)); });
        } catch (e) { }
      });
      backendWs.addEventListener("close", (event) => { clientWs.close(event.code, event.reason); });
      backendWs.addEventListener("error", (event) => { clientWs.close(1011, "Backend error"); });
    },
    message(clientWs, message) {
      const backendWs = wsBackends.get(clientWs);
      if (backendWs && backendWs.readyState === WebSocket.OPEN) backendWs.send(message);
    },
    close(clientWs, code, reason) {
      const backendWs = wsBackends.get(clientWs);
      if (backendWs) { backendWs.close(code, reason); wsBackends.delete(clientWs); }
    },
  }
  \<close>
  Sockets are named by numbers. The state is the table \<^verbatim>\<open>wsBackends\<close>, for each backend
  socket the client socket its four listeners have captured, and each backend socket's
  \<^verbatim>\<open>readyState\<close>, which the platform moves: \<^verbatim>\<open>CONNECTING\<close> when the socket is made,
  \<^verbatim>\<open>OPEN\<close> at its \<^verbatim>\<open>open\<close> event, \<^verbatim>\<open>CLOSING\<close> when \<^verbatim>\<open>close()\<close> is called on it, \<^verbatim>\<open>CLOSED\<close>
  at its \<^verbatim>\<open>close\<close> event. A handler's effect on the sockets is the list of calls it makes,
  unless it ends with an exception.

  The backend socket is a \<^verbatim>\<open>WebSocket\<close> of the platform, whose \<^verbatim>\<open>close(code, reason)\<close> checks
  its arguments before it does anything: a code other than 1000 and outside 3000 to 4999
  throws \<^verbatim>\<open>InvalidAccessError\<close>, a reason of more than 123 bytes throws \<^verbatim>\<open>SyntaxError\<close>.
  The \<^verbatim>\<open>close\<close> handler of the daemon calls it unguarded, so the exception leaves the
  handler before \<^verbatim>\<open>wsBackends.delete\<close>. The client socket is the server's own socket type,
  whose \<^verbatim>\<open>close\<close> takes any code.

  The handler table of the daemon has the entries \<^verbatim>\<open>open\<close>, \<^verbatim>\<open>message\<close> and \<^verbatim>\<open>close\<close> for
  the client socket, and the backend socket has listeners for \<^verbatim>\<open>open\<close>, \<^verbatim>\<open>message\<close>,
  \<^verbatim>\<open>close\<close> and \<^verbatim>\<open>error\<close>. An error of the client connection, \<open>Client_error\<close>, has
  no handler: no code of the daemon runs for it.
\<close>

type_synonym sock = nat

datatype ready_state = CONNECTING | OPEN | CLOSING | CLOSED

datatype ws_data = Text string | ArrayBuffer string | Blob string

datatype ws_action =
    NewWebSocket sock string
  | ClientSend sock ws_data
  | ClientClose sock nat string
  | BackendSend sock ws_data
  | BackendClose sock nat string

record ws_state =
  wsBackends :: "sock \<rightharpoonup> sock"
  listeners :: "sock \<rightharpoonup> sock"
  readyState :: "sock \<Rightarrow> ready_state"

datatype ws_event =
    Client_open sock string sock
  | Client_message sock ws_data
  | Client_close sock nat string
  | Client_error sock
  | Backend_open sock
  | Backend_message sock ws_data
  | Backend_close sock nat string
  | Backend_error sock

text \<open>
  \<open>Client_open clientWs backendUrl backendWs\<close>: the \<^verbatim>\<open>open\<close> handler runs for \<open>clientWs\<close>,
  whose \<^verbatim>\<open>data\<close> holds \<open>backendUrl\<close>, and \<^verbatim>\<open>new WebSocket(backendUrl)\<close> yields the socket
  \<open>backendWs\<close>. The bytes of a \<^verbatim>\<open>Blob\<close> are sent once \<^verbatim>\<open>arrayBuffer()\<close> has resolved; the
  model sends them at once.
\<close>

fun bytes_to_client :: "ws_data \<Rightarrow> ws_data" where
  "bytes_to_client (Text s) = Text s"
| "bytes_to_client (ArrayBuffer b) = ArrayBuffer b"
| "bytes_to_client (Blob b) = ArrayBuffer b"

datatype ws_exception = InvalidAccessError | SyntaxError

text \<open>
  \<^verbatim>\<open>WebSocket.close(code, reason)\<close> on a socket in the given \<^verbatim>\<open>readyState\<close>: the exception it
  throws, or the \<^verbatim>\<open>readyState\<close> it leaves (a socket closing or closed stays as it is).
\<close>

definition WebSocket_close :: "nat \<Rightarrow> string \<Rightarrow> ready_state \<Rightarrow> ws_exception + ready_state" where
  "WebSocket_close code reason rs =
     (if code \<noteq> 1000 \<and> \<not> (3000 \<le> code \<and> code \<le> 4999) then Inl InvalidAccessError
      else if length reason > 123 then Inl SyntaxError
      else if rs = CLOSING \<or> rs = CLOSED then Inr rs
      else Inr CLOSING)"

text \<open>
  A handler run: \<open>Inl\<close> the exception that left the handler, or \<open>Inr\<close> the calls it made on
  the sockets; and the state after it.
\<close>

fun ws_handle :: "ws_event \<Rightarrow> ws_state \<Rightarrow> (ws_exception + ws_action list) \<times> ws_state" where
  "ws_handle (Client_open clientWs backendUrl backendWs) st =
     (Inr [NewWebSocket backendWs backendUrl],
      st\<lparr>wsBackends := (wsBackends st)(clientWs \<mapsto> backendWs),
         listeners := (listeners st)(backendWs \<mapsto> clientWs),
         readyState := (readyState st)(backendWs := CONNECTING)\<rparr>)"
| "ws_handle (Client_message clientWs message) st =
     (case wsBackends st clientWs of
        None \<Rightarrow> (Inr [], st)
      | Some backendWs \<Rightarrow>
          if readyState st backendWs = OPEN then (Inr [BackendSend backendWs message], st)
          else (Inr [], st))"
| "ws_handle (Client_close clientWs code reason) st =
     (case wsBackends st clientWs of
        None \<Rightarrow> (Inr [], st)
      | Some backendWs \<Rightarrow>
          (case WebSocket_close code reason (readyState st backendWs) of
             Inl exn \<Rightarrow> (Inl exn, st)
           | Inr rs \<Rightarrow>
               (Inr [BackendClose backendWs code reason],
                st\<lparr>wsBackends := (wsBackends st)(clientWs := None),
                   readyState := (readyState st)(backendWs := rs)\<rparr>)))"
| "ws_handle (Client_error clientWs) st = (Inr [], st)"
| "ws_handle (Backend_open backendWs) st =
     (Inr [], st\<lparr>readyState := (readyState st)(backendWs := OPEN)\<rparr>)"
| "ws_handle (Backend_message backendWs data) st =
     (case listeners st backendWs of
        None \<Rightarrow> (Inr [], st)
      | Some clientWs \<Rightarrow> (Inr [ClientSend clientWs (bytes_to_client data)], st))"
| "ws_handle (Backend_close backendWs code reason) st =
     (case listeners st backendWs of
        None \<Rightarrow> (Inr [], st\<lparr>readyState := (readyState st)(backendWs := CLOSED)\<rparr>)
      | Some clientWs \<Rightarrow>
          (Inr [ClientClose clientWs code reason],
           st\<lparr>readyState := (readyState st)(backendWs := CLOSED)\<rparr>))"
| "ws_handle (Backend_error backendWs) st =
     (case listeners st backendWs of
        None \<Rightarrow> (Inr [], st)
      | Some clientWs \<Rightarrow> (Inr [ClientClose clientWs 1011 ''Backend error''], st))"

definition ws_initial :: ws_state where
  "ws_initial = \<lparr>wsBackends = Map.empty, listeners = Map.empty, readyState = (\<lambda>_. CLOSED)\<rparr>"

section \<open>Leaf certificates: \<^verbatim>\<open>src/certs.ts\<close>\<close>

subsection \<open>The values of the certificate library\<close>

text \<open>
  The library's values are modelled symbolically. An RSA key pair is named by the modulus
  length asked for and the random draw it was generated from; a certificate is the record
  of the fields the code sets; signing records the signing key and the digest; a PEM text
  is named by the value it encodes, so two PEM texts are equal exactly when they encode
  equal values.
\<close>

datatype rsa_key = PublicKey nat nat | PrivateKey nat nat

fun key_bits :: "rsa_key \<Rightarrow> nat" where
  "key_bits (PublicKey bits r) = bits"
| "key_bits (PrivateKey bits r) = bits"

record keypair =
  publicKey :: rsa_key
  privateKey :: rsa_key

definition generateKeyPair :: "nat \<Rightarrow> nat \<Rightarrow> keypair" where
  "generateKeyPair bits r = \<lparr>publicKey = PublicKey bits r, privateKey = PrivateKey bits r\<rparr>"

datatype md = Sha1 | Sha256 | Sha384 | Sha512

datatype key_usage =
    DigitalSignature | NonRepudiation | KeyEncipherment | DataEncipherment
  | KeyAgreement | KeyCertSign | CRLSign

datatype ext_key_usage = ServerAuth | ClientAuth | CodeSigning | EmailProtection | TimeStamping

datatype extension =
    BasicConstraints bool
  | SubjectAltName "(nat \<times> string) list"
  | KeyUsage "key_usage list"
  | ExtKeyUsage "ext_key_usage list"

type_synonym attributes = "(string \<times> string) list"

record certificate =
  cert_publicKey :: rsa_key
  cert_serialNumber :: string
  cert_notBefore :: int
  cert_notAfter :: int
  cert_subject :: attributes
  cert_issuer :: attributes
  cert_extensions :: "extension list"
  cert_signature :: "(rsa_key \<times> md) option"

datatype pem = CertificatePem certificate | PrivateKeyPem rsa_key

text \<open>The values of the subject attributes named \<^verbatim>\<open>commonName\<close>.\<close>

definition commonNames :: "certificate \<Rightarrow> string list" where
  "commonNames c = map snd (filter (\<lambda>a. fst a = ''commonName'') (cert_subject c))"

text \<open>The \<^verbatim>\<open>subjectAltName\<close> entries of type 2 (DNS names).\<close>

fun altNames_of :: "extension \<Rightarrow> (nat \<times> string) list" where
  "altNames_of (SubjectAltName ns) = ns"
| "altNames_of _ = []"

definition dnsNames :: "certificate \<Rightarrow> string list" where
  "dnsNames c =
     map snd (filter (\<lambda>n. fst n = 2) (concat (map altNames_of (cert_extensions c))))"

subsection \<open>\<^verbatim>\<open>getCert\<close>\<close>

text \<open>
  \<^verbatim>\<open>
  let caCert: forge.pki.Certificate | null = null;
  let caKey: forge.pki.PrivateKey | null = null;
  const certCache = new Map<string, { cert: string; key: string }>();

  export function getCert(hostname: string): { cert: string; key: string } | null {
    if (!caCert || !caKey) return null;
    const cached = certCache.get(hostname);
    if (cached) return cached;
    const keys = forge.pki.rsa.generateKeyPair(2048);
    const cert = forge.pki.createCertificate();
    cert.publicKey = keys.publicKey;
    cert.serialNumber = Date.now().toString(16);
    const now = new Date();
    cert.validity.notBefore = now;
    cert.validity.notAfter = new Date(now.getTime() + 365 * 24 * 60 * 60 * 1000);
    const attrs = [{ name: "commonName", value: hostname }];
    cert.setSubject(attrs);
    cert.setIssuer(caCert.subject.attributes);
    cert.setExtensions([
      { name: "basicConstraints", cA: false },
      { name: "subjectAltName", altNames: [{ type: 2, value: hostname }] },
      { name: "keyUsage", digitalSignature: true, keyEncipherment: true },
      { name: "extKeyUsage", serverAuth: true },
    ]);
    cert.sign(caKey, forge.md.sha256.create());
    const result = {
      cert: forge.pki.certificateToPem(cert),
      key: forge.pki.privateKeyToPem(keys.privateKey),
    };
    certCache.set(hostname, result);
    return result;
  }
  \<close>
  The three module variables are the state. One call meets, outside the module, the random
  draw of the key generator and the clock, read twice (\<^verbatim>\<open>Date.now()\<close>, then
  \<^verbatim>\<open>new Date()\<close>).
\<close>

record cert_key =
  pem_cert :: pem
  pem_key :: pem

record certs_state =
  caCert :: "certificate option"
  caKey :: "rsa_key option"
  certCache :: "string \<rightharpoonup> cert_key"

record cert_env =
  cenv_random :: nat
  cenv_dateNow :: int
  cenv_newDate :: int

text \<open>The certificate as the setter calls of the source leave it, ready to be encoded.\<close>

definition leaf_certificate ::
  "certificate \<Rightarrow> rsa_key \<Rightarrow> keypair \<Rightarrow> cert_env \<Rightarrow> string \<Rightarrow> certificate" where
  "leaf_certificate ca cakey keys e hostname =
     (let now = cenv_newDate e;
          attrs = [(''commonName'', hostname)]
      in \<lparr>cert_publicKey = publicKey keys,
          cert_serialNumber = toString16 (cenv_dateNow e),
          cert_notBefore = now,
          cert_notAfter = now + 365 * 24 * 60 * 60 * 1000,
          cert_subject = attrs,
          cert_issuer = cert_subject ca,
          cert_extensions =
            [BasicConstraints False,
             SubjectAltName [(2, hostname)],
             KeyUsage [DigitalSignature, KeyEncipherment],
             ExtKeyUsage [ServerAuth]],
          cert_signature = Some (cakey, Sha256)\<rparr>)"

definition getCert :: "cert_env \<Rightarrow> string \<Rightarrow> certs_state \<Rightarrow> cert_key option \<times> certs_state" where
  "getCert e hostname st =
     (case caCert st of
        None \<Rightarrow> (None, st)
      | Some ca \<Rightarrow>
          (case caKey st of
             None \<Rightarrow> (None, st)
           | Some cakey \<Rightarrow>
               (case certCache st hostname of
                  Some cached \<Rightarrow> (Some cached, st)
                | None \<Rightarrow>
                    (let keys = generateKeyPair 2048 (cenv_random e);
                         cert = leaf_certificate ca cakey keys e hostname;
                         result = \<lparr>pem_cert = CertificatePem cert,
                                   pem_key = PrivateKeyPem (privateKey keys)\<rparr>
                     in (Some result, st\<lparr>certCache := (certCache st)(hostname \<mapsto> result)\<rparr>)))))"

text \<open>The module once \<^verbatim>\<open>loadCA\<close> has stored a certificate and a key: nothing cached yet.\<close>

definition ca_loaded :: "certificate \<Rightarrow> rsa_key \<Rightarrow> certs_state" where
  "ca_loaded ca cakey = \<lparr>caCert = Some ca, caKey = Some cakey, certCache = Map.empty\<rparr>"

text \<open>A sequence of calls, each with what it meets and its hostname; the results in order.\<close>

fun getCerts :: "(cert_env \<times> string) list \<Rightarrow> certs_state \<Rightarrow> cert_key option list \<times> certs_state" where
  "getCerts [] st = ([], st)"
| "getCerts ((e, hostname) # calls) st =
     (let (r, st') = getCert e hostname st;
          (rs, st'') = getCerts calls st'
      in (r # rs, st''))"

text \<open>The key a result carries.\<close>

fun key_of_pem :: "pem \<Rightarrow> rsa_key option" where
  "key_of_pem (PrivateKeyPem k) = Some k"
| "key_of_pem (CertificatePem c) = None"

fun cert_of_pem :: "pem \<Rightarrow> certificate option" where
  "cert_of_pem (CertificatePem c) = Some c"
| "cert_of_pem (PrivateKeyPem k) = None"

text \<open>The key and the certificate a result of \<^verbatim>\<open>getCert\<close> carries.\<close>

definition result_key :: "cert_key option \<Rightarrow> rsa_key option" where
  "result_key r = (case r of None \<Rightarrow> None | Some p \<Rightarrow> key_of_pem (pem_key p))"

definition result_cert :: "cert_key option \<Rightarrow> certificate option" where
  "result_cert r = (case r of None \<Rightarrow> None | Some p \<Rightarrow> cert_of_pem (pem_cert p))"

text \<open>
  What holds of the cache whatever calls have been made: an entry for a hostname is a leaf
  for that hostname, made from one of the random draws \<open>R\<close> used so far, and no draw has
  gone into the entries of two hostnames.
\<close>

definition leaf_for :: "string \<Rightarrow> nat \<Rightarrow> cert_key \<Rightarrow> bool" where
  "leaf_for h r p \<longleftrightarrow>
     (\<exists>c. p = \<lparr>pem_cert = CertificatePem c, pem_key = PrivateKeyPem (PrivateKey 2048 r)\<rparr> \<and>
          cert_publicKey c = PublicKey 2048 r \<and> commonNames c = [h] \<and> dnsNames c = [h])"

definition cache_inv :: "nat set \<Rightarrow> certs_state \<Rightarrow> bool" where
  "cache_inv R st \<longleftrightarrow>
     caCert st \<noteq> None \<and> caKey st \<noteq> None \<and>
     (\<forall>h p. certCache st h = Some p \<longrightarrow> (\<exists>r\<in>R. leaf_for h r p)) \<and>
     (\<forall>h h' r p p'. h \<noteq> h' \<longrightarrow> certCache st h = Some p \<longrightarrow> certCache st h' = Some p' \<longrightarrow>
        leaf_for h r p \<longrightarrow> \<not> leaf_for h' r p')"

section \<open>Concrete inputs\<close>

text \<open>A \<^verbatim>\<open>GET\<close> request with the given \<^verbatim>\<open>Host\<close> header, path and query.\<close>

definition get_request :: "string \<Rightarrow> string \<Rightarrow> string \<Rightarrow> request" where
  "get_request host path query =
     \<lparr>req_url = \<lparr>url_protocol = Http, url_hostname = split_first host (CHR '':''),
                 url_port = ''9090'', url_pathname = path, url_search = query\<rparr>,
      req_method = ''GET'',
      req_headers = [(''Host'', host), (''If-None-Match'', ''abc''), (''Accept'', ''text/html'')],
      req_body = None,
      req_redirect = Follow\<rparr>"

text \<open>A backend that refuses the connection, and one that answers with a redirect.\<close>

definition backend_down :: "request \<Rightarrow> string + response" where
  "backend_down r = Inl ''Error: ConnectionRefused''"

definition backend_redirect :: "request \<Rightarrow> string + response" where
  "backend_redirect r =
     Inr \<lparr>resp_status = 302, resp_headers = [(''location'', ''/login'')], resp_body = []\<rparr>"

definition example_env :: "(request \<Rightarrow> string + response) \<Rightarrow> env" where
  "example_env backend =
     \<lparr>env_now = 1700000000000,
      env_buildMapping = [''testapp'' \<mapsto> 4000],
      env_scanServers = [],
      env_upgrade = True,
      env_fetch = backend\<rparr>"

text \<open>A root certificate with its key, and what a call of \<^verbatim>\<open>getCert\<close> meets.\<close>

definition example_ca :: certificate where
  "example_ca =
     \<lparr>cert_publicKey = PublicKey 2048 0,
      cert_serialNumber = ''01'',
      cert_notBefore = 1600000000000,
      cert_notAfter = 1900000000000,
      cert_subject = [(''organizationName'', ''mkcert development CA'')],
      cert_issuer = [(''organizationName'', ''mkcert development CA'')],
      cert_extensions = [BasicConstraints True, KeyUsage [KeyCertSign]],
      cert_signature = Some (PrivateKey 2048 0, Sha256)\<rparr>"

definition example_cakey :: rsa_key where
  "example_cakey = PrivateKey 2048 0"

definition example_draw :: "nat \<Rightarrow> cert_env" where
  "example_draw r =
     \<lparr>cenv_random = r, cenv_dateNow = 1700000000000 + int r, cenv_newDate = 1700000000001 + int r\<rparr>"

section \<open>Properties of the request handler\<close>

subsection \<open>Host headers\<close>

lemma split_first_hostname:
  assumes "sep \<notin> set hostname" and "suffix = [] \<or> (\<exists>port. suffix = sep # port)"
  shows "split_first (hostname @ suffix) sep = hostname"
proof -
  have all: "takeWhile (\<lambda>c. c \<noteq> sep) hostname = hostname"
    using assms(1) by auto
  from assms(2) show ?thesis
  proof
    assume "suffix = []"
    then show ?thesis using all by (simp add: split_first_def)
  next
    assume "\<exists>port. suffix = sep # port"
    then obtain port where "suffix = sep # port" ..
    then show ?thesis using all by (simp add: split_first_def takeWhile_tail)
  qed
qed

lemma endsWith_append [simp]: "endsWith (pre @ suf) suf"
  by (simp add: endsWith_def)

lemma endsWith_iff: "endsWith s suf \<longleftrightarrow> (\<exists>pre. s = pre @ suf)"
proof
  assume "endsWith s suf"
  then have "s = take (length s - length suf) s @ suf"
    by (metis append_take_drop_id endsWith_def)
  then show "\<exists>pre. s = pre @ suf" ..
next
  assume "\<exists>pre. s = pre @ suf"
  then show "endsWith s suf" by auto
qed

lemma slice_end_append [simp]: "slice_end (pre @ suf) (length suf) = pre"
  by (simp add: slice_end_def)

lemma extractSubdomain_name:
  assumes "name \<noteq> []" and "CHR '':'' \<notin> set name"
    and "suffix = [] \<or> (\<exists>port. suffix = CHR '':'' # port)"
  shows "extractSubdomain (Some (name @ ''.localhost'' @ suffix)) = Some name"
proof -
  have "CHR '':'' \<notin> set (name @ ''.localhost'')"
    using assms(2) by simp
  then have hn: "split_first ((name @ ''.localhost'') @ suffix) (CHR '':'') = name @ ''.localhost''"
    using assms(3) by (rule split_first_hostname)
  have ne: "name @ ''.localhost'' \<noteq> ''localhost''"
  proof
    assume "name @ ''.localhost'' = ''localhost''"
    then have "length (name @ ''.localhost'') = length ''localhost''" by simp
    then show False by simp
  qed
  have sl: "slice_end (name @ ''.localhost'') (length ''.localhost'') = name"
    by (rule slice_end_append)
  show ?thesis
    using hn ne sl assms(1) by (simp add: extractSubdomain_def Let_def del: slice_end_append)
qed

lemma extractSubdomain_None:
  assumes "CHR '':'' \<notin> set hostname"
    and "suffix = [] \<or> (\<exists>port. suffix = CHR '':'' # port)"
    and "hostname = ''localhost'' \<or> hostname = ''.localhost'' \<or> \<not> (\<exists>pre. hostname = pre @ ''.localhost'')"
  shows "extractSubdomain (Some (hostname @ suffix)) = None"
proof -
  have hn: "split_first (hostname @ suffix) (CHR '':'') = hostname"
    using assms(1,2) by (rule split_first_hostname)
  from assms(3) consider "hostname = ''localhost''" | "hostname = ''.localhost''"
    | "\<not> endsWith hostname ''.localhost''"
    by (auto simp: endsWith_iff)
  then show ?thesis
  proof cases
    case 1 then show ?thesis using hn by (simp add: extractSubdomain_def)
  next
    case 2 then show ?thesis using hn by (simp add: extractSubdomain_def endsWith_def slice_end_def)
  next
    case 3 then show ?thesis using hn by (simp add: extractSubdomain_def)
  qed
qed

lemma extractSubdomain_underscore:
  assumes "suffix = [] \<or> (\<exists>port. suffix = CHR '':'' # port)"
  shows "extractSubdomain (Some (''_.localhost'' @ suffix)) = Some ''_''"
  using extractSubdomain_name [of "''_''" suffix] assms by simp

subsection \<open>The mapping cache\<close>

lemma getMapping_fresh:
  "\<not> env_now e - lastScan st > 5000 \<Longrightarrow> getMapping e st = (mappingCache st, [], st)"
  by (simp add: getMapping_def getMapping_enter_def CACHE_TTL_MS_def)

lemma getMapping_stale:
  "env_now e - lastScan st > 5000 \<Longrightarrow>
   getMapping e st =
     (env_buildMapping e, [BuildMapping],
      st\<lparr>mappingCache := env_buildMapping e, lastScan := env_now e\<rparr>)"
  by (simp add: getMapping_def getMapping_enter_def getMapping_resume_def CACHE_TTL_MS_def)

text \<open>
  Claim C5. \<^verbatim>\<open>getMapping\<close> calls \<^verbatim>\<open>buildMapping\<close> if and only if the clock reading minus
  \<^verbatim>\<open>lastScan\<close> exceeds 5000 ms. Otherwise it returns the cached mapping and leaves the state
  as it is; after a refresh the cache is the new mapping as a whole (and \<^verbatim>\<open>lastScan\<close> the
  clock reading), and the new mapping is what is returned.
\<close>

theorem getMapping_refresh_iff_stale:
  "(BuildMapping \<in> set (fst (snd (getMapping e st))) \<longleftrightarrow> env_now e - lastScan st > 5000) \<and>
   (\<not> env_now e - lastScan st > 5000 \<longrightarrow> getMapping e st = (mappingCache st, [], st)) \<and>
   (env_now e - lastScan st > 5000 \<longrightarrow>
      getMapping e st =
        (env_buildMapping e, [BuildMapping],
         \<lparr>mappingCache = env_buildMapping e, lastScan = env_now e\<rparr>))"
  by (cases "env_now e - lastScan st > 5000") (simp_all add: getMapping_fresh getMapping_stale)

theorem getMapping_refresh_iff_stale_witness:
  "getMapping (example_env backend_down) initial_state =
     ([''testapp'' \<mapsto> 4000], [BuildMapping],
      \<lparr>mappingCache = [''testapp'' \<mapsto> 4000], lastScan = 1700000000000\<rparr>) \<and>
   getMapping (example_env backend_down) \<lparr>mappingCache = Map.empty, lastScan = 1699999999000\<rparr> =
     (Map.empty, [], \<lparr>mappingCache = Map.empty, lastScan = 1699999999000\<rparr>)"
proof -
  have stale: "env_now (example_env backend_down) - lastScan initial_state > 5000"
    by (simp add: example_env_def initial_state_def)
  have fresh: "\<not> env_now (example_env backend_down) -
                   lastScan \<lparr>mappingCache = Map.empty, lastScan = 1699999999000\<rparr> > 5000"
    by (simp add: example_env_def)
  have "getMapping (example_env backend_down) initial_state =
          (env_buildMapping (example_env backend_down), [BuildMapping],
           \<lparr>mappingCache = env_buildMapping (example_env backend_down),
              lastScan = env_now (example_env backend_down)\<rparr>)"
    using getMapping_refresh_iff_stale [of "example_env backend_down" initial_state] stale
    by blast
  moreover have "getMapping (example_env backend_down)
                   \<lparr>mappingCache = Map.empty, lastScan = 1699999999000\<rparr> =
          (mappingCache \<lparr>mappingCache = Map.empty, lastScan = 1699999999000\<rparr>, [],
           \<lparr>mappingCache = Map.empty, lastScan = 1699999999000\<rparr>)"
    using getMapping_refresh_iff_stale
      [of "example_env backend_down" "\<lparr>mappingCache = Map.empty, lastScan = 1699999999000\<rparr>"] fresh
    by blast
  ultimately show ?thesis
    by (simp add: example_env_def)
qed

subsection \<open>Several calls of \<^verbatim>\<open>getMapping\<close> in flight\<close>

lemma Enter_stale:
  assumes "now - lastScan (sys_state s) > 5000" and "sys_tasks s k = NotStarted"
  shows "getMapping_step (Enter k now) s =
           s\<lparr>sys_tasks := (sys_tasks s)(k := Suspended now),
             sys_refreshes := sys_refreshes s + 1\<rparr>"
  using assms by (simp add: getMapping_step_def getMapping_enter_def CACHE_TTL_MS_def)

text \<open>
  Claim C6 says that staleness detected by several requests at once leads to exactly one
  call of \<^verbatim>\<open>buildMapping\<close>. The code keeps no record of a refresh in flight: \<^verbatim>\<open>lastScan\<close>
  is assigned only after the \<^verbatim>\<open>await\<close>, so a second request that enters \<^verbatim>\<open>getMapping\<close>
  before the first refresh has resolved finds the cache stale as well. Two requests right
  after startup make two calls.
\<close>

theorem concurrent_stale_calls_counterexample:
  "sys_refreshes (run [Enter 0 1700000000000, Enter 1 1700000000000] initial_system) = 2"
  by (simp add: getMapping_step_def getMapping_enter_def CACHE_TTL_MS_def initial_system_def
      initial_state_def)

text \<open>
  Claim C6 as amended: every call of \<^verbatim>\<open>getMapping\<close> that finds the cache stale makes its
  own call of \<^verbatim>\<open>buildMapping\<close>. When N calls enter at clock readings more than 5000 ms
  after \<^verbatim>\<open>lastScan\<close>, none of their refreshes having resolved, N refreshes are issued
  (and the cache is still as it was).
\<close>

theorem every_stale_call_refreshes:
  assumes "\<forall>now\<in>set nows. now - lastScan (sys_state s) > 5000"
    and "\<forall>i\<ge>k. sys_tasks s i = NotStarted"
  shows "sys_refreshes (run (enters k nows) s) = sys_refreshes s + length nows \<and>
         sys_state (run (enters k nows) s) = sys_state s"
  using assms
proof (induction nows arbitrary: k s)
  case Nil
  show ?case by simp
next
  case (Cons now nows)
  define s' where "s' = getMapping_step (Enter k now) s"
  have stale: "now - lastScan (sys_state s) > 5000" using Cons.prems(1) by simp
  have idle: "sys_tasks s k = NotStarted" using Cons.prems(2) by simp
  have s': "s' = s\<lparr>sys_tasks := (sys_tasks s)(k := Suspended now),
                   sys_refreshes := sys_refreshes s + 1\<rparr>"
    unfolding s'_def using stale idle by (rule Enter_stale)
  have st: "sys_state s' = sys_state s" and n: "sys_refreshes s' = sys_refreshes s + 1"
    by (simp_all add: s')
  have p1: "\<forall>now\<in>set nows. now - lastScan (sys_state s') > 5000"
    using Cons.prems(1) st by simp
  have p2: "\<forall>i\<ge>Suc k. sys_tasks s' i = NotStarted"
    using Cons.prems(2) by (simp add: s')
  from Cons.IH [OF p1 p2]
  have "sys_refreshes (run (enters (Suc k) nows) s') = sys_refreshes s' + length nows"
    and "sys_state (run (enters (Suc k) nows) s') = sys_state s'"
    by simp_all
  then show ?case using st n by (simp add: s'_def)
qed

theorem every_stale_call_refreshes_witness:
  "sys_refreshes (run (enters 0 [1700000000000, 1700000000001, 1700000000002]) initial_system) = 3"
proof -
  have h1: "\<forall>now\<in>set [1700000000000, 1700000000001, 1700000000002].
              now - lastScan (sys_state initial_system) > 5000"
    by (simp add: initial_system_def initial_state_def)
  have h2: "\<forall>i\<ge>0. sys_tasks initial_system i = NotStarted"
    by (simp add: initial_system_def)
  show ?thesis
    using every_stale_call_refreshes [OF h1 h2] by (simp add: initial_system_def)
qed

subsection \<open>Routing by \<^verbatim>\<open>Host\<close>\<close>

text \<open>
  A \<^verbatim>\<open>Host\<close> header is a host name, alone or followed by a colon and a port. The host name
  itself has no colon: \<^verbatim>\<open>extractSubdomain\<close> takes the header up to its first colon. In the
  statements below the header is written \<open>hostname @ suffix\<close>, where \<open>suffix\<close> is empty or
  starts with the colon.
\<close>

text \<open>
  Claim C1. A request whose \<^verbatim>\<open>Host\<close> header is \<^verbatim>\<open>name.localhost\<close>, alone or followed by
  \<^verbatim>\<open>:port\<close>, where \<open>name\<close> is not empty and not \<^verbatim>\<open>_\<close>, is answered with status 404 when
  the mapping \<^verbatim>\<open>getMapping\<close> yields for the request has no entry for \<open>name\<close>. In a
  \<^verbatim>\<open>Host\<close> header the colon separates the port, so \<open>name\<close> is a host name without one.
\<close>

theorem unmapped_subdomain_404:
  assumes host: "headers_get (req_headers req) ''host'' = Some (name @ ''.localhost'' @ suffix)"
    and name: "name \<noteq> []" "name \<noteq> ''_''" "CHR '':'' \<notin> set name"
    and suffix: "suffix = [] \<or> (\<exists>port. suffix = CHR '':'' # port)"
    and unmapped: "fst (getMapping e st) name = None"
  shows "fst (fetch PORT e req st) = Respond (not_found name) \<and>
         resp_status (not_found name) = 404"
proof -
  have sub: "extractSubdomain (Some (name @ ''.localhost'' @ suffix)) = Some name"
    using name(1,3) suffix by (rule extractSubdomain_name)
  obtain m cs st' where gm: "getMapping e st = (m, cs, st')"
    by (cases "getMapping e st") auto
  with unmapped have "m name = None" by simp
  then have "fst (fetch PORT e req st) = Respond (not_found name)"
    using host sub name(2) gm by (simp add: fetch_def)
  moreover have "resp_status (not_found name) = 404"
    by (simp add: not_found_def text_response_def)
  ultimately show ?thesis by simp
qed

theorem unmapped_subdomain_404_witness:
  "fst (fetch 9090 (example_env backend_down) (get_request ''paper.localhost:9090'' ''/'' [])
          initial_state) = Respond (not_found ''paper'') \<and>
   resp_status (not_found ''paper'') = 404"
proof -
  have host: "headers_get (req_headers (get_request ''paper.localhost:9090'' ''/'' [])) ''host'' =
                Some (''paper'' @ ''.localhost'' @ '':9090'')"
    by (simp add: get_request_def headers_get_def name_matches_def toLowerCase_def lower_char_def)
  have name: "''paper'' \<noteq> []" "''paper'' \<noteq> ''_''" "CHR '':'' \<notin> set ''paper''"
    by simp_all
  have suffix: "'':9090'' = [] \<or> (\<exists>port. '':9090'' = CHR '':'' # port)"
    by simp
  have unmapped: "fst (getMapping (example_env backend_down) initial_state) ''paper'' = None"
    by (simp add: getMapping_def getMapping_enter_def getMapping_resume_def CACHE_TTL_MS_def
        example_env_def initial_state_def)
  show ?thesis
    by (rule unmapped_subdomain_404 [OF host name suffix unmapped])
qed

text \<open>
  Claim C4. When the host name of the \<^verbatim>\<open>Host\<close> header, that is the header without a
  trailing \<^verbatim>\<open>:port\<close>, is \<^verbatim>\<open>localhost\<close>, or is a prefix followed by \<^verbatim>\<open>.localhost\<close> where the
  prefix is empty or \<^verbatim>\<open>_\<close>, the handler answers with the dashboard page. Its only call is
  \<^verbatim>\<open>scanServers\<close>: it does not call \<^verbatim>\<open>getMapping\<close>, and the cache state is as before.
\<close>

theorem dashboard_hosts:
  assumes host: "headers_get (req_headers req) ''host'' = Some (hostname @ suffix)"
    and suffix: "suffix = [] \<or> (\<exists>port. suffix = CHR '':'' # port)"
    and hostname: "hostname = ''localhost'' \<or>
                   (\<exists>prefix. hostname = prefix @ ''.localhost'' \<and> (prefix = [] \<or> prefix = ''_''))"
  shows "fetch PORT e req st =
           (Respond (renderDashboard PORT (env_scanServers e)), [ScanServers], st)"
proof -
  from hostname consider "hostname = ''localhost''" | "hostname = ''.localhost''"
    | "hostname = ''_.localhost''"
    by auto
  then show ?thesis
  proof cases
    case 1
    then have "extractSubdomain (Some (hostname @ suffix)) = None"
      using suffix by (intro extractSubdomain_None) simp_all
    then show ?thesis using host by (simp add: fetch_def)
  next
    case 2
    then have "extractSubdomain (Some (hostname @ suffix)) = None"
      using suffix by (intro extractSubdomain_None) simp_all
    then show ?thesis using host by (simp add: fetch_def)
  next
    case 3
    then have "extractSubdomain (Some (hostname @ suffix)) = Some ''_''"
      using suffix extractSubdomain_underscore [of suffix] by simp
    then show ?thesis using host by (simp add: fetch_def)
  qed
qed

theorem dashboard_hosts_witness:
  "fetch 9090 (example_env backend_down) (get_request ''_.localhost:9090'' ''/'' []) initial_state =
     (Respond (renderDashboard 9090 []), [ScanServers], initial_state)"
proof -
  have host: "headers_get (req_headers (get_request ''_.localhost:9090'' ''/'' [])) ''host'' =
                Some (''_.localhost'' @ '':9090'')"
    by (simp add: get_request_def headers_get_def name_matches_def toLowerCase_def lower_char_def)
  have suffix: "'':9090'' = [] \<or> (\<exists>port. '':9090'' = CHR '':'' # port)"
    by simp
  have "''_.localhost'' = ''_'' @ ''.localhost'' \<and> (''_'' = [] \<or> ''_'' = ''_'')"
    by simp
  then have hostname: "''_.localhost'' = ''localhost'' \<or>
      (\<exists>prefix. ''_.localhost'' = prefix @ ''.localhost'' \<and> (prefix = [] \<or> prefix = ''_''))"
    by blast
  have "fetch 9090 (example_env backend_down) (get_request ''_.localhost:9090'' ''/'' [])
          initial_state =
        (Respond (renderDashboard 9090 (env_scanServers (example_env backend_down))),
         [ScanServers], initial_state)"
    by (rule dashboard_hosts [OF host suffix hostname])
  then show ?thesis
    by (simp add: example_env_def)
qed

text \<open>
  Claim C10. When the \<^verbatim>\<open>Host\<close> header is missing, or its host name (the header without a
  trailing \<^verbatim>\<open>:port\<close>) is neither \<^verbatim>\<open>localhost\<close> nor ends with \<^verbatim>\<open>.localhost\<close>, the handler
  answers with the dashboard page, status 200. Its only call is \<^verbatim>\<open>scanServers\<close>: there is
  no mapping lookup, no request to a backend and no 404.
\<close>

theorem foreign_hosts_dashboard:
  assumes host: "headers_get (req_headers req) ''host'' = None \<or>
                 (\<exists>hostname suffix.
                    headers_get (req_headers req) ''host'' = Some (hostname @ suffix) \<and>
                    CHR '':'' \<notin> set hostname \<and>
                    (suffix = [] \<or> (\<exists>port. suffix = CHR '':'' # port)) \<and>
                    hostname \<noteq> ''localhost'' \<and>
                    \<not> (\<exists>prefix. hostname = prefix @ ''.localhost''))"
  shows "fetch PORT e req st =
           (Respond (renderDashboard PORT (env_scanServers e)), [ScanServers], st) \<and>
         resp_status (renderDashboard PORT (env_scanServers e)) = 200"
proof -
  have "extractSubdomain (headers_get (req_headers req) ''host'') = None"
    using host
  proof
    assume "headers_get (req_headers req) ''host'' = None"
    then show ?thesis by (simp add: extractSubdomain_def)
  next
    assume "\<exists>hostname suffix.
              headers_get (req_headers req) ''host'' = Some (hostname @ suffix) \<and>
              CHR '':'' \<notin> set hostname \<and>
              (suffix = [] \<or> (\<exists>port. suffix = CHR '':'' # port)) \<and>
              hostname \<noteq> ''localhost'' \<and>
              \<not> (\<exists>prefix. hostname = prefix @ ''.localhost'')"
    then obtain hostname suffix where
      h: "headers_get (req_headers req) ''host'' = Some (hostname @ suffix)"
      and c: "CHR '':'' \<notin> set hostname"
      and s: "suffix = [] \<or> (\<exists>port. suffix = CHR '':'' # port)"
      and n: "\<not> (\<exists>prefix. hostname = prefix @ ''.localhost'')"
      by blast
    have "extractSubdomain (Some (hostname @ suffix)) = None"
      using c s n by (intro extractSubdomain_None) simp_all
    then show ?thesis using h by simp
  qed
  then show ?thesis
    by (simp add: fetch_def renderDashboard_def)
qed

theorem foreign_hosts_dashboard_witness:
  "fetch 9090 (example_env backend_down) (get_request ''example.com'' ''/'' []) initial_state =
     (Respond (renderDashboard 9090 []), [ScanServers], initial_state) \<and>
   resp_status (renderDashboard 9090 []) = 200"
proof -
  have host: "headers_get (req_headers (get_request ''example.com'' ''/'' [])) ''host'' =
                Some (''example.com'' @ [])"
    by (simp add: get_request_def headers_get_def name_matches_def toLowerCase_def lower_char_def)
  have "\<not> endsWith ''example.com'' ''.localhost''"
    by (simp add: endsWith_def)
  then have other: "\<not> (\<exists>prefix. ''example.com'' = prefix @ ''.localhost'')"
    by (simp add: endsWith_iff)
  have "headers_get (req_headers (get_request ''example.com'' ''/'' [])) ''host'' =
          Some (''example.com'' @ []) \<and>
        CHR '':'' \<notin> set ''example.com'' \<and>
        ([] = [] \<or> (\<exists>port. [] = CHR '':'' # port)) \<and>
        ''example.com'' \<noteq> ''localhost'' \<and>
        \<not> (\<exists>prefix. ''example.com'' = prefix @ ''.localhost'')"
    using host other by simp
  then have hyp: "headers_get (req_headers (get_request ''example.com'' ''/'' [])) ''host'' = None \<or>
      (\<exists>hostname suffix.
         headers_get (req_headers (get_request ''example.com'' ''/'' [])) ''host'' =
           Some (hostname @ suffix) \<and>
         CHR '':'' \<notin> set hostname \<and>
         (suffix = [] \<or> (\<exists>port. suffix = CHR '':'' # port)) \<and>
         hostname \<noteq> ''localhost'' \<and>
         \<not> (\<exists>prefix. hostname = prefix @ ''.localhost''))"
    by blast
  have "fetch 9090 (example_env backend_down) (get_request ''example.com'' ''/'' []) initial_state =
          (Respond (renderDashboard 9090 (env_scanServers (example_env backend_down))),
           [ScanServers], initial_state) \<and>
        resp_status (renderDashboard 9090 (env_scanServers (example_env backend_down))) = 200"
    by (rule foreign_hosts_dashboard [OF hyp])
  then show ?thesis
    by (simp add: example_env_def)
qed

subsection \<open>\<^verbatim>\<open>proxyRequest\<close>\<close>

text \<open>
  Claim C2. When the attempt to reach the backend fails, that is when the \<^verbatim>\<open>fetch\<close> of the
  request built by \<^verbatim>\<open>proxyRequest\<close> throws, \<^verbatim>\<open>proxyRequest\<close> returns a response with
  status 502, labelled as plain text, whose body is \<^verbatim>\<open>Failed to proxy to port\<close>, the
  target port in decimal, a colon and the text of the failure.
\<close>

theorem proxyRequest_502:
  assumes "env_fetch e (proxyReq req targetPort) = Inl err"
  shows "resp_status (fst (proxyRequest e req targetPort)) = 502 \<and>
         resp_body (fst (proxyRequest e req targetPort)) =
           ''Failed to proxy to port '' @ String_nat targetPort @ '': '' @ err \<and>
         headers_get (resp_headers (fst (proxyRequest e req targetPort))) ''content-type'' =
           Some ''text/plain;charset=utf-8''"
  using assms
  by (simp add: proxyRequest_def text_response_def headers_get_def name_matches_def)

theorem proxyRequest_502_witness:
  "resp_status (fst (proxyRequest (example_env backend_down)
                       (get_request ''testapp.localhost:9090'' ''/foo'' []) 4000)) = 502 \<and>
   resp_body (fst (proxyRequest (example_env backend_down)
                     (get_request ''testapp.localhost:9090'' ''/foo'' []) 4000)) =
     ''Failed to proxy to port 4000: Error: ConnectionRefused''"
proof -
  have refused: "env_fetch (example_env backend_down)
                   (proxyReq (get_request ''testapp.localhost:9090'' ''/foo'' []) 4000) =
                 Inl ''Error: ConnectionRefused''"
    by (simp add: example_env_def backend_down_def)
  have port: "String_nat 4000 = ''4000''"
    by (simp add: String_nat_def radix_digits.simps digit_char_def)
  show ?thesis
    using proxyRequest_502 [OF refused] by (simp add: port)
qed

lemma lower_if_none_match: "toLowerCase ''If-None-Match'' = ''if-none-match''"
  by (simp add: toLowerCase_def lower_char_def)

lemma lower_if_modified_since: "toLowerCase ''If-Modified-Since'' = ''if-modified-since''"
  by (simp add: toLowerCase_def lower_char_def)

lemma proxy_headers_filter:
  "proxy_headers req =
     filter (\<lambda>kv. toLowerCase (fst kv) \<noteq> ''if-none-match'' \<and>
                  toLowerCase (fst kv) \<noteq> ''if-modified-since'') (req_headers req)"
  by (simp add: proxy_headers_def headers_delete_def name_matches_def
      lower_if_none_match lower_if_modified_since conj_commute)

lemma radix_digits_nonempty: "radix_digits b n \<noteq> []"
  by (subst radix_digits.simps) simp

lemma proxy_url_set_port:
  "req_url (proxyReq req targetPort) =
     url_set_port ((req_url req)\<lparr>url_hostname := ''localhost''\<rparr>) targetPort"
  by (simp add: proxyReq_def proxy_url_def)

text \<open>A number above 65535 is not taken as a port: the request keeps the port it came with.\<close>

lemma proxy_url_not_a_port:
  "65535 < targetPort \<Longrightarrow>
   req_url (proxyReq req targetPort) = (req_url req)\<lparr>url_hostname := ''localhost''\<rparr>"
  by (simp add: proxy_url_set_port url_set_port_def)

text \<open>
  Claim C3. For a target port, that is a number up to 65535, \<^verbatim>\<open>proxyRequest\<close> makes one
  backend request. Its URL is the original one with the host name \<^verbatim>\<open>localhost\<close> and the
  target port (held as the empty string when it is the default port of the scheme), the
  scheme, path and query as they were; method and body are the original ones; the headers
  are the original headers, in order, without those named \<^verbatim>\<open>If-None-Match\<close> or
  \<^verbatim>\<open>If-Modified-Since\<close> in any letter case; the redirect mode is \<^verbatim>\<open>manual\<close>, and whatever
  response the backend request resolves to, a 3xx with its \<^verbatim>\<open>Location\<close> header included, is
  returned as it is.
\<close>

theorem proxyRequest_forwards:
  assumes port: "targetPort \<le> 65535"
  shows
  "snd (proxyRequest e req targetPort) = [BackendFetch (proxyReq req targetPort)] \<and>
   url_hostname (req_url (proxyReq req targetPort)) = ''localhost'' \<and>
   url_port (req_url (proxyReq req targetPort)) =
     (if targetPort = default_port (url_protocol (req_url req)) then [] else String_nat targetPort) \<and>
   url_effective_port (req_url (proxyReq req targetPort)) = String_nat targetPort \<and>
   url_protocol (req_url (proxyReq req targetPort)) = url_protocol (req_url req) \<and>
   url_pathname (req_url (proxyReq req targetPort)) = url_pathname (req_url req) \<and>
   url_search (req_url (proxyReq req targetPort)) = url_search (req_url req) \<and>
   req_method (proxyReq req targetPort) = req_method req \<and>
   req_body (proxyReq req targetPort) = req_body req \<and>
   req_headers (proxyReq req targetPort) =
     filter (\<lambda>kv. toLowerCase (fst kv) \<noteq> ''if-none-match'' \<and>
                  toLowerCase (fst kv) \<noteq> ''if-modified-since'') (req_headers req) \<and>
   req_redirect (proxyReq req targetPort) = Manual \<and>
   (\<forall>resp. env_fetch e (proxyReq req targetPort) = Inr resp \<longrightarrow>
      fst (proxyRequest e req targetPort) = resp)"
proof -
  have calls: "snd (proxyRequest e req targetPort) = [BackendFetch (proxyReq req targetPort)]"
    by (simp add: proxyRequest_def split: sum.splits)
  have url: "req_url (proxyReq req targetPort) =
               (req_url req)\<lparr>url_hostname := ''localhost'',
                  url_port := (if targetPort = default_port (url_protocol (req_url req)) then []
                               else String_nat targetPort)\<rparr>"
    using port by (simp add: proxy_url_set_port url_set_port_def)
  have digits: "String_nat targetPort \<noteq> []"
    by (simp add: String_nat_def radix_digits_nonempty)
  have effective: "url_effective_port (req_url (proxyReq req targetPort)) = String_nat targetPort"
    using digits by (simp add: url url_effective_port_def)
  have hs: "req_headers (proxyReq req targetPort) = proxy_headers req"
    by (simp add: proxyReq_def)
  have rest: "req_method (proxyReq req targetPort) = req_method req"
    "req_body (proxyReq req targetPort) = req_body req"
    "req_redirect (proxyReq req targetPort) = Manual"
    by (simp_all add: proxyReq_def)
  have verbatim: "\<forall>resp. env_fetch e (proxyReq req targetPort) = Inr resp \<longrightarrow>
      fst (proxyRequest e req targetPort) = resp"
    by (simp add: proxyRequest_def)
  have parts: "url_hostname (req_url (proxyReq req targetPort)) = ''localhost''"
    "url_port (req_url (proxyReq req targetPort)) =
       (if targetPort = default_port (url_protocol (req_url req)) then [] else String_nat targetPort)"
    "url_protocol (req_url (proxyReq req targetPort)) = url_protocol (req_url req)"
    "url_pathname (req_url (proxyReq req targetPort)) = url_pathname (req_url req)"
    "url_search (req_url (proxyReq req targetPort)) = url_search (req_url req)"
    by (simp_all add: url)
  show ?thesis
    using calls parts effective rest verbatim by (simp add: hs proxy_headers_filter)
qed

theorem proxyRequest_forwards_witness:
  "fst (proxyRequest (example_env backend_redirect)
          (get_request ''testapp.localhost:9090'' ''/foo'' ''?a=1'') 4000) =
     \<lparr>resp_status = 302, resp_headers = [(''location'', ''/login'')], resp_body = []\<rparr> \<and>
   req_headers (proxyReq (get_request ''testapp.localhost:9090'' ''/foo'' ''?a=1'') 4000) =
     [(''Host'', ''testapp.localhost:9090''), (''Accept'', ''text/html'')] \<and>
   url_hostname (req_url (proxyReq (get_request ''testapp.localhost:9090'' ''/foo'' ''?a=1'') 4000)) =
     ''localhost'' \<and>
   url_port (req_url (proxyReq (get_request ''testapp.localhost:9090'' ''/foo'' ''?a=1'') 4000)) =
     ''4000'' \<and>
   url_pathname (req_url (proxyReq (get_request ''testapp.localhost:9090'' ''/foo'' ''?a=1'') 4000)) =
     ''/foo'' \<and>
   url_search (req_url (proxyReq (get_request ''testapp.localhost:9090'' ''/foo'' ''?a=1'') 4000)) =
     ''?a=1''"
proof -
  have bound: "(4000::nat) \<le> 65535"
    by simp
  have redirect: "env_fetch (example_env backend_redirect)
                    (proxyReq (get_request ''testapp.localhost:9090'' ''/foo'' ''?a=1'') 4000) =
                  Inr \<lparr>resp_status = 302, resp_headers = [(''location'', ''/login'')], resp_body = []\<rparr>"
    by (simp add: example_env_def backend_redirect_def)
  have digits: "String_nat 4000 = ''4000''"
    by (simp add: String_nat_def radix_digits.simps digit_char_def)
  note forwards = proxyRequest_forwards
      [OF bound, of "example_env backend_redirect"
         "get_request ''testapp.localhost:9090'' ''/foo'' ''?a=1''"]
  have "fst (proxyRequest (example_env backend_redirect)
               (get_request ''testapp.localhost:9090'' ''/foo'' ''?a=1'') 4000) =
        \<lparr>resp_status = 302, resp_headers = [(''location'', ''/login'')], resp_body = []\<rparr>"
    using forwards redirect by blast
  moreover have "req_headers (proxyReq (get_request ''testapp.localhost:9090'' ''/foo'' ''?a=1'') 4000) =
        filter (\<lambda>kv. toLowerCase (fst kv) \<noteq> ''if-none-match'' \<and>
                     toLowerCase (fst kv) \<noteq> ''if-modified-since'')
          (req_headers (get_request ''testapp.localhost:9090'' ''/foo'' ''?a=1''))"
    using forwards by blast
  moreover have "url_hostname (req_url (proxyReq (get_request ''testapp.localhost:9090'' ''/foo'' ''?a=1'') 4000)) =
        ''localhost''"
    using forwards by blast
  moreover have "url_port (req_url (proxyReq (get_request ''testapp.localhost:9090'' ''/foo'' ''?a=1'') 4000)) =
        (if 4000 = default_port (url_protocol (req_url (get_request ''testapp.localhost:9090'' ''/foo'' ''?a=1'')))
         then [] else String_nat 4000)"
    using forwards by blast
  moreover have "url_pathname (req_url (proxyReq (get_request ''testapp.localhost:9090'' ''/foo'' ''?a=1'') 4000)) =
        url_pathname (req_url (get_request ''testapp.localhost:9090'' ''/foo'' ''?a=1''))"
    using forwards by blast
  moreover have "url_search (req_url (proxyReq (get_request ''testapp.localhost:9090'' ''/foo'' ''?a=1'') 4000)) =
        url_search (req_url (get_request ''testapp.localhost:9090'' ''/foo'' ''?a=1''))"
    using forwards by blast
  ultimately show ?thesis
    by (simp add: get_request_def toLowerCase_def lower_char_def digits)
qed

section \<open>Properties of the WebSocket bridge\<close>

lemma WebSocket_close_accepts:
  assumes "code = 1000 \<or> (3000 \<le> code \<and> code \<le> 4999)" and "length reason \<le> 123"
  shows "\<exists>rs'. WebSocket_close code reason rs = Inr rs'"
  using assms by (auto simp: WebSocket_close_def)

text \<open>
  With a code that \<^verbatim>\<open>WebSocket.close\<close> refuses, the \<^verbatim>\<open>close\<close> handler ends with the exception:
  no call reaches the backend socket and the pair stays in \<^verbatim>\<open>wsBackends\<close>.
\<close>

lemma client_close_refused_code:
  assumes "wsBackends st clientWs = Some backendWs"
    and "code \<noteq> 1000" and "code < 3000 \<or> 4999 < code"
  shows "ws_handle (Client_close clientWs code reason) st = (Inl InvalidAccessError, st)"
  using assms by (auto simp: WebSocket_close_def)

text \<open>
  Claim C9 says that a transport error on either side closes the client with code 1011.
  The bridge reacts to an error of the backend socket only: for an error of the client
  connection no code of the bridge runs, and nothing is closed.
\<close>

theorem client_error_counterexample:
  "ws_handle (Client_error 1)
     (snd (ws_handle (Client_open 1 ''ws://localhost:4000/'' 2) ws_initial)) =
   (Inr [], snd (ws_handle (Client_open 1 ''ws://localhost:4000/'' 2) ws_initial))"
  by simp

text \<open>
  Claim C9 as amended: in a bridged pair (the client socket has its backend socket in
  \<^verbatim>\<open>wsBackends\<close>, and the backend socket's listeners hold the client socket), when the
  backend closes with a code and reason the client is closed with the same code and reason;
  when the client closes with a code and reason that \<^verbatim>\<open>WebSocket.close\<close> takes (code 1000
  or 3000 to 4999, reason of at most 123 bytes) the backend socket is closed with the same
  code and reason and the pair leaves \<^verbatim>\<open>wsBackends\<close>; and an error of the backend socket
  closes the client with code 1011 and the reason \<^verbatim>\<open>Backend error\<close>.
\<close>

theorem close_propagation:
  assumes pair: "wsBackends st clientWs = Some backendWs" "listeners st backendWs = Some clientWs"
    and code: "code = 1000 \<or> (3000 \<le> code \<and> code \<le> 4999)"
    and reason: "length reason \<le> 123"
  shows "fst (ws_handle (Client_close clientWs code reason) st) =
           Inr [BackendClose backendWs code reason] \<and>
         wsBackends (snd (ws_handle (Client_close clientWs code reason) st)) clientWs = None \<and>
         fst (ws_handle (Backend_close backendWs code' reason') st) =
           Inr [ClientClose clientWs code' reason'] \<and>
         fst (ws_handle (Backend_error backendWs) st) =
           Inr [ClientClose clientWs 1011 ''Backend error'']"
proof -
  obtain rs' where "WebSocket_close code reason (readyState st backendWs) = Inr rs'"
    using WebSocket_close_accepts [OF code reason] by blast
  then have "fst (ws_handle (Client_close clientWs code reason) st) =
               Inr [BackendClose backendWs code reason]"
    and "wsBackends (snd (ws_handle (Client_close clientWs code reason) st)) clientWs = None"
    using pair(1) by simp_all
  moreover have "fst (ws_handle (Backend_close backendWs code' reason') st) =
                   Inr [ClientClose clientWs code' reason']"
    and "fst (ws_handle (Backend_error backendWs) st) =
           Inr [ClientClose clientWs 1011 ''Backend error'']"
    using pair(2) by simp_all
  ultimately show ?thesis by simp
qed

theorem close_propagation_witness:
  "fst (ws_handle (Client_close 1 1000 ''bye'')
          (snd (ws_handle (Client_open 1 ''ws://localhost:4000/'' 2) ws_initial))) =
     Inr [BackendClose 2 1000 ''bye''] \<and>
   fst (ws_handle (Backend_close 2 1006 [])
          (snd (ws_handle (Client_open 1 ''ws://localhost:4000/'' 2) ws_initial))) =
     Inr [ClientClose 1 1006 []] \<and>
   fst (ws_handle (Backend_error 2)
          (snd (ws_handle (Client_open 1 ''ws://localhost:4000/'' 2) ws_initial))) =
     Inr [ClientClose 1 1011 ''Backend error'']"
proof -
  have h1: "wsBackends (snd (ws_handle (Client_open 1 ''ws://localhost:4000/'' 2) ws_initial)) 1 = Some 2"
    by simp
  have h2: "listeners (snd (ws_handle (Client_open 1 ''ws://localhost:4000/'' 2) ws_initial)) 2 = Some 1"
    by simp
  have h3: "(1000::nat) = 1000 \<or> (3000 \<le> (1000::nat) \<and> (1000::nat) \<le> 4999)"
    by simp
  have h4: "length ''bye'' \<le> 123"
    by simp
  show ?thesis
    using close_propagation [OF h1 h2 h3 h4, of 1006 "[]"] by blast
qed

section \<open>Properties of \<^verbatim>\<open>getCert\<close>\<close>

lemma leaf_for_fresh:
  "leaf_for h (cenv_random e)
     \<lparr>pem_cert = CertificatePem (leaf_certificate ca cakey (generateKeyPair 2048 (cenv_random e)) e h),
      pem_key = PrivateKeyPem (privateKey (generateKeyPair 2048 (cenv_random e)))\<rparr>"
  by (simp add: leaf_for_def leaf_certificate_def generateKeyPair_def commonNames_def dnsNames_def
      Let_def)

lemma leaf_for_seed: "leaf_for h r p \<Longrightarrow> leaf_for h' r' p \<Longrightarrow> r = r'"
  by (auto simp: leaf_for_def)

lemma getCert_hit:
  "caCert st = Some ca \<Longrightarrow> caKey st = Some cakey \<Longrightarrow> certCache st h = Some p \<Longrightarrow>
   getCert e h st = (Some p, st)"
  by (simp add: getCert_def)

lemma getCert_miss:
  "caCert st = Some ca \<Longrightarrow> caKey st = Some cakey \<Longrightarrow> certCache st h = None \<Longrightarrow>
   getCert e h st =
     (let result =
        \<lparr>pem_cert = CertificatePem (leaf_certificate ca cakey (generateKeyPair 2048 (cenv_random e)) e h),
         pem_key = PrivateKeyPem (privateKey (generateKeyPair 2048 (cenv_random e)))\<rparr>
      in (Some result, st\<lparr>certCache := (certCache st)(h \<mapsto> result)\<rparr>))"
  by (simp add: getCert_def Let_def)

lemma getCert_step:
  assumes inv: "cache_inv R st" and fresh: "cenv_random e \<notin> R"
  shows "cache_inv (insert (cenv_random e) R) (snd (getCert e h st)) \<and>
         fst (getCert e h st) = certCache (snd (getCert e h st)) h \<and>
         fst (getCert e h st) \<noteq> None \<and>
         (\<forall>h' p. certCache st h' = Some p \<longrightarrow> certCache (snd (getCert e h st)) h' = Some p)"
proof -
  from inv obtain ca cakey where ca: "caCert st = Some ca" "caKey st = Some cakey"
    by (auto simp: cache_inv_def)
  show ?thesis
  proof (cases "certCache st h")
    case (Some p)
    then have "getCert e h st = (Some p, st)" using ca by (simp add: getCert_hit)
    moreover have "cache_inv (insert (cenv_random e) R) st"
      using inv unfolding cache_inv_def by blast
    ultimately show ?thesis using Some by simp
  next
    case None
    define result where "result =
        \<lparr>pem_cert = CertificatePem (leaf_certificate ca cakey (generateKeyPair 2048 (cenv_random e)) e h),
         pem_key = PrivateKeyPem (privateKey (generateKeyPair 2048 (cenv_random e)))\<rparr>"
    have g: "getCert e h st = (Some result, st\<lparr>certCache := (certCache st)(h \<mapsto> result)\<rparr>)"
      using ca None by (simp add: getCert_miss result_def Let_def)
    have lf: "leaf_for h (cenv_random e) result"
      unfolding result_def by (rule leaf_for_fresh)
    have old: "\<And>h' p r. certCache st h' = Some p \<Longrightarrow> leaf_for h' r p \<Longrightarrow> r \<in> R"
    proof -
      fix h' p r assume "certCache st h' = Some p" "leaf_for h' r p"
      moreover from this inv obtain r' where "r' \<in> R" "leaf_for h' r' p"
        unfolding cache_inv_def by blast
      ultimately show "r \<in> R" using leaf_for_seed by blast
    qed
    have inv': "cache_inv (insert (cenv_random e) R) (st\<lparr>certCache := (certCache st)(h \<mapsto> result)\<rparr>)"
      unfolding cache_inv_def
    proof (intro conjI allI impI)
      show "caCert (st\<lparr>certCache := (certCache st)(h \<mapsto> result)\<rparr>) \<noteq> None" using ca by simp
      show "caKey (st\<lparr>certCache := (certCache st)(h \<mapsto> result)\<rparr>) \<noteq> None" using ca by simp
    next
      fix h' p
      assume "certCache (st\<lparr>certCache := (certCache st)(h \<mapsto> result)\<rparr>) h' = Some p"
      then show "\<exists>r\<in>insert (cenv_random e) R. leaf_for h' r p"
        using lf inv unfolding cache_inv_def by (cases "h' = h") auto
    next
      fix h1 h2 r p1 p2
      assume ne: "h1 \<noteq> h2"
        and c1: "certCache (st\<lparr>certCache := (certCache st)(h \<mapsto> result)\<rparr>) h1 = Some p1"
        and c2: "certCache (st\<lparr>certCache := (certCache st)(h \<mapsto> result)\<rparr>) h2 = Some p2"
        and l1: "leaf_for h1 r p1"
      show "\<not> leaf_for h2 r p2"
      proof
        assume l2: "leaf_for h2 r p2"
        consider "h1 = h" | "h2 = h" | "h1 \<noteq> h" "h2 \<noteq> h" by blast
        then show False
        proof cases
          case 1
          then have "p1 = result" "certCache st h2 = Some p2" using c1 c2 ne by auto
          then have "r = cenv_random e" "r \<in> R" using l1 lf 1 leaf_for_seed old l2 by blast+
          then show False using fresh by simp
        next
          case 2
          then have "p2 = result" "certCache st h1 = Some p1" using c1 c2 ne by auto
          then have "r = cenv_random e" "r \<in> R" using l2 lf 2 leaf_for_seed old l1 by blast+
          then show False using fresh by simp
        next
          case 3
          then have "certCache st h1 = Some p1" "certCache st h2 = Some p2" using c1 c2 by auto
          then show False using inv ne l1 l2 unfolding cache_inv_def by blast
        qed
      qed
    qed
    show ?thesis using g inv' None by auto
  qed
qed

lemma getCerts_Cons:
  "getCerts ((e, h) # calls) st =
     (fst (getCert e h st) # fst (getCerts calls (snd (getCert e h st))),
      snd (getCerts calls (snd (getCert e h st))))"
  by (simp split: prod.splits)

lemma getCerts_length: "length (fst (getCerts calls st)) = length calls"
proof (induction calls arbitrary: st)
  case Nil
  show ?case by simp
next
  case (Cons call calls)
  obtain e h where "call = (e, h)" by (cases call)
  then show ?case using Cons.IH by (simp only: getCerts_Cons fst_conv list.size)
qed

lemma getCerts_run:
  assumes "cache_inv R st" and "distinct (map (\<lambda>c. cenv_random (fst c)) calls)"
    and "set (map (\<lambda>c. cenv_random (fst c)) calls) \<inter> R = {}"
  shows "cache_inv (R \<union> set (map (\<lambda>c. cenv_random (fst c)) calls)) (snd (getCerts calls st)) \<and>
         (\<forall>h p. certCache st h = Some p \<longrightarrow> certCache (snd (getCerts calls st)) h = Some p) \<and>
         (\<forall>i<length calls.
            fst (getCerts calls st) ! i = certCache (snd (getCerts calls st)) (snd (calls ! i)) \<and>
            fst (getCerts calls st) ! i \<noteq> None)"
  using assms
proof (induction calls arbitrary: R st)
  case Nil
  then show ?case by simp
next
  case (Cons call calls)
  obtain e h where call: "call = (e, h)" by (cases call)
  define r where "r = fst (getCert e h st)"
  define st' where "st' = snd (getCert e h st)"
  have fresh: "cenv_random e \<notin> R" using Cons.prems(3) call by auto
  from getCert_step [OF Cons.prems(1) fresh, of h]
  have inv': "cache_inv (insert (cenv_random e) R) st'"
    and res: "r = certCache st' h" "r \<noteq> None"
    and mono: "\<forall>h' p. certCache st h' = Some p \<longrightarrow> certCache st' h' = Some p"
    unfolding r_def st'_def by blast+
  have d: "distinct (map (\<lambda>c. cenv_random (fst c)) calls)"
    using Cons.prems(2) by simp
  have "cenv_random e \<notin> set (map (\<lambda>c. cenv_random (fst c)) calls)"
    using Cons.prems(2) call by simp
  moreover have "set (map (\<lambda>c. cenv_random (fst c)) calls) \<inter> R = {}"
    using Cons.prems(3) by auto
  ultimately have disj: "set (map (\<lambda>c. cenv_random (fst c)) calls) \<inter> insert (cenv_random e) R = {}"
    by blast
  from Cons.IH [OF inv' d disj]
  have inv'': "cache_inv (insert (cenv_random e) R \<union> set (map (\<lambda>c. cenv_random (fst c)) calls))
                 (snd (getCerts calls st'))"
    and mono': "\<forall>h p. certCache st' h = Some p \<longrightarrow> certCache (snd (getCerts calls st')) h = Some p"
    and rs: "\<forall>i<length calls.
            fst (getCerts calls st') ! i = certCache (snd (getCerts calls st')) (snd (calls ! i)) \<and>
            fst (getCerts calls st') ! i \<noteq> None"
    by blast+
  have unfold: "getCerts (call # calls) st = (r # fst (getCerts calls st'), snd (getCerts calls st'))"
    by (simp only: call r_def st'_def getCerts_Cons)
  have sets: "insert (cenv_random e) R \<union> set (map (\<lambda>c. cenv_random (fst c)) calls)
            = R \<union> set (map (\<lambda>c. cenv_random (fst c)) (call # calls))"
    using call by auto
  have head: "r = certCache (snd (getCerts calls st')) h"
    using res mono' by (cases r) auto
  show ?case
  proof (intro conjI)
    show "cache_inv (R \<union> set (map (\<lambda>c. cenv_random (fst c)) (call # calls))) (snd (getCerts (call # calls) st))"
      using inv'' sets unfold by simp
  next
    show "\<forall>h' p. certCache st h' = Some p \<longrightarrow>
            certCache (snd (getCerts (call # calls) st)) h' = Some p"
      using mono mono' unfold by simp
  next
    show "\<forall>i<length (call # calls).
            fst (getCerts (call # calls) st) ! i =
              certCache (snd (getCerts (call # calls) st)) (snd ((call # calls) ! i)) \<and>
            fst (getCerts (call # calls) st) ! i \<noteq> None"
    proof (intro allI impI)
    fix i assume i: "i < length (call # calls)"
    show "fst (getCerts (call # calls) st) ! i =
            certCache (snd (getCerts (call # calls) st)) (snd ((call # calls) ! i)) \<and>
          fst (getCerts (call # calls) st) ! i \<noteq> None"
    proof (cases i)
      case 0
      then show ?thesis using head res(2) unfold call by simp
    next
      case (Suc k)
      then have "k < length calls" using i by simp
      then have "fst (getCerts calls st') ! k =
                   certCache (snd (getCerts calls st')) (snd (calls ! k)) \<and>
                 fst (getCerts calls st') ! k \<noteq> None"
        using rs by blast
      moreover have "fst (getCerts (call # calls) st) ! i = fst (getCerts calls st') ! k"
        "snd (getCerts (call # calls) st) = snd (getCerts calls st')"
        "snd ((call # calls) ! i) = snd (calls ! k)"
        using Suc unfold by simp_all
      ultimately show ?thesis by metis
    qed
    qed
  qed
qed

lemma cache_inv_loaded: "cache_inv {} (ca_loaded ca cakey)"
  by (simp add: cache_inv_def ca_loaded_def)

text \<open>
  Claim C7. With the CA loaded, a call of \<^verbatim>\<open>getCert\<close> for a hostname returns a result, and
  the next call for that hostname returns the same certificate and key texts, whatever
  randomness and clock it meets, and leaves the cache as it is. In any sequence of calls
  made after the CA was loaded whose random draws differ from one another, two calls for
  different hostnames return different private keys and certificates with different public
  keys, each certificate with its own hostname as the one common name and the one DNS
  alternative name.
\<close>

theorem getCert_cached_and_distinct:
  "(caCert st = Some ca \<and> caKey st = Some cakey \<longrightarrow>
      fst (getCert e2 hostname (snd (getCert e1 hostname st))) = fst (getCert e1 hostname st) \<and>
      fst (getCert e1 hostname st) \<noteq> None \<and>
      snd (getCert e2 hostname (snd (getCert e1 hostname st))) = snd (getCert e1 hostname st)) \<and>
   (distinct (map (\<lambda>c. cenv_random (fst c)) calls) \<and>
    i < length calls \<and> j < length calls \<and> snd (calls ! i) \<noteq> snd (calls ! j) \<longrightarrow>
      result_key (fst (getCerts calls (ca_loaded ca' cakey')) ! i) \<noteq> None \<and>
      result_key (fst (getCerts calls (ca_loaded ca' cakey')) ! j) \<noteq> None \<and>
      result_key (fst (getCerts calls (ca_loaded ca' cakey')) ! i) \<noteq>
        result_key (fst (getCerts calls (ca_loaded ca' cakey')) ! j) \<and>
      map_option cert_publicKey (result_cert (fst (getCerts calls (ca_loaded ca' cakey')) ! i)) \<noteq>
        map_option cert_publicKey (result_cert (fst (getCerts calls (ca_loaded ca' cakey')) ! j)) \<and>
      map_option commonNames (result_cert (fst (getCerts calls (ca_loaded ca' cakey')) ! i)) =
        Some [snd (calls ! i)] \<and>
      map_option dnsNames (result_cert (fst (getCerts calls (ca_loaded ca' cakey')) ! i)) =
        Some [snd (calls ! i)] \<and>
      map_option commonNames (result_cert (fst (getCerts calls (ca_loaded ca' cakey')) ! j)) =
        Some [snd (calls ! j)] \<and>
      map_option dnsNames (result_cert (fst (getCerts calls (ca_loaded ca' cakey')) ! j)) =
        Some [snd (calls ! j)])"
proof (intro conjI impI)
  assume ca: "caCert st = Some ca \<and> caKey st = Some cakey"
  define r1 where "r1 = fst (getCert e1 hostname st)"
  define st1 where "st1 = snd (getCert e1 hostname st)"
  have first: "r1 \<noteq> None \<and> certCache st1 hostname = r1 \<and> caCert st1 = Some ca \<and> caKey st1 = Some cakey"
    using ca unfolding r1_def st1_def
    by (cases "certCache st hostname") (simp_all add: getCert_def Let_def)
  then obtain p where p: "r1 = Some p" "certCache st1 hostname = Some p" by auto
  have second: "getCert e2 hostname st1 = (Some p, st1)"
    using first p by (simp add: getCert_hit)
  show "fst (getCert e2 hostname (snd (getCert e1 hostname st))) = fst (getCert e1 hostname st)"
    using second p unfolding r1_def st1_def by simp
  show "fst (getCert e1 hostname st) \<noteq> None"
    using first unfolding r1_def by simp
  show "snd (getCert e2 hostname (snd (getCert e1 hostname st))) = snd (getCert e1 hostname st)"
    using second unfolding st1_def by simp
next
  assume h: "distinct (map (\<lambda>c. cenv_random (fst c)) calls) \<and>
    i < length calls \<and> j < length calls \<and> snd (calls ! i) \<noteq> snd (calls ! j)"
  define rs where "rs = fst (getCerts calls (ca_loaded ca' cakey'))"
  define final where "final = snd (getCerts calls (ca_loaded ca' cakey'))"
  define R where "R = set (map (\<lambda>c. cenv_random (fst c)) calls)"
  from h have d: "distinct (map (\<lambda>c. cenv_random (fst c)) calls)"
    and i: "i < length calls" and j: "j < length calls"
    and ne: "snd (calls ! i) \<noteq> snd (calls ! j)"
    by simp_all
  have run: "cache_inv ({} \<union> set (map (\<lambda>c. cenv_random (fst c)) calls)) final \<and>
         (\<forall>h p. certCache (ca_loaded ca' cakey') h = Some p \<longrightarrow> certCache final h = Some p) \<and>
         (\<forall>i<length calls. rs ! i = certCache final (snd (calls ! i)) \<and> rs ! i \<noteq> None)"
    unfolding rs_def final_def
    by (rule getCerts_run [OF cache_inv_loaded d]) simp
  then have inv: "cache_inv R final" by (simp add: R_def)
  from run i obtain pi where pi: "rs ! i = Some pi" "certCache final (snd (calls ! i)) = Some pi"
    by (metis not_None_eq)
  from run j obtain pj where pj: "rs ! j = Some pj" "certCache final (snd (calls ! j)) = Some pj"
    by (metis not_None_eq)
  from inv pi(2) obtain ri where ri: "leaf_for (snd (calls ! i)) ri pi"
    unfolding cache_inv_def by blast
  from inv pj(2) obtain rj where rj: "leaf_for (snd (calls ! j)) rj pj"
    unfolding cache_inv_def by blast
  have "\<not> leaf_for (snd (calls ! j)) ri pj"
    using inv ne pi(2) pj(2) ri unfolding cache_inv_def by blast
  then have seeds: "ri \<noteq> rj" using rj by auto
  from ri obtain ci where ci: "pi = \<lparr>pem_cert = CertificatePem ci, pem_key = PrivateKeyPem (PrivateKey 2048 ri)\<rparr>"
    "cert_publicKey ci = PublicKey 2048 ri" "commonNames ci = [snd (calls ! i)]"
    "dnsNames ci = [snd (calls ! i)]"
    unfolding leaf_for_def by blast
  from rj obtain cj where cj: "pj = \<lparr>pem_cert = CertificatePem cj, pem_key = PrivateKeyPem (PrivateKey 2048 rj)\<rparr>"
    "cert_publicKey cj = PublicKey 2048 rj" "commonNames cj = [snd (calls ! j)]"
    "dnsNames cj = [snd (calls ! j)]"
    unfolding leaf_for_def by blast
  have ki: "result_key (rs ! i) = Some (PrivateKey 2048 ri)"
    and kj: "result_key (rs ! j) = Some (PrivateKey 2048 rj)"
    and cci: "result_cert (rs ! i) = Some ci"
    and ccj: "result_cert (rs ! j) = Some cj"
    using pi(1) pj(1) ci(1) cj(1) by (simp_all add: result_key_def result_cert_def)
  show "result_key (fst (getCerts calls (ca_loaded ca' cakey')) ! i) \<noteq> None"
    using ki unfolding rs_def by simp
  show "result_key (fst (getCerts calls (ca_loaded ca' cakey')) ! j) \<noteq> None"
    using kj unfolding rs_def by simp
  show "result_key (fst (getCerts calls (ca_loaded ca' cakey')) ! i) \<noteq>
        result_key (fst (getCerts calls (ca_loaded ca' cakey')) ! j)"
    using ki kj seeds unfolding rs_def by simp
  show "map_option cert_publicKey (result_cert (fst (getCerts calls (ca_loaded ca' cakey')) ! i)) \<noteq>
        map_option cert_publicKey (result_cert (fst (getCerts calls (ca_loaded ca' cakey')) ! j))"
    using cci ccj ci(2) cj(2) seeds unfolding rs_def by simp
  show "map_option commonNames (result_cert (fst (getCerts calls (ca_loaded ca' cakey')) ! i)) =
        Some [snd (calls ! i)]"
    using cci ci(3) unfolding rs_def by simp
  show "map_option dnsNames (result_cert (fst (getCerts calls (ca_loaded ca' cakey')) ! i)) =
        Some [snd (calls ! i)]"
    using cci ci(4) unfolding rs_def by simp
  show "map_option commonNames (result_cert (fst (getCerts calls (ca_loaded ca' cakey')) ! j)) =
        Some [snd (calls ! j)]"
    using ccj cj(3) unfolding rs_def by simp
  show "map_option dnsNames (result_cert (fst (getCerts calls (ca_loaded ca' cakey')) ! j)) =
        Some [snd (calls ! j)]"
    using ccj cj(4) unfolding rs_def by simp
qed

theorem getCert_cached_and_distinct_witness:
  "fst (getCert (example_draw 2) ''a.localhost''
          (snd (getCert (example_draw 1) ''a.localhost'' (ca_loaded example_ca example_cakey)))) =
   fst (getCert (example_draw 1) ''a.localhost'' (ca_loaded example_ca example_cakey)) \<and>
   result_key (fst (getCerts [(example_draw 1, ''a.localhost''), (example_draw 2, ''b.localhost'')]
                      (ca_loaded example_ca example_cakey)) ! 0) \<noteq>
   result_key (fst (getCerts [(example_draw 1, ''a.localhost''), (example_draw 2, ''b.localhost'')]
                      (ca_loaded example_ca example_cakey)) ! 1) \<and>
   map_option commonNames
     (result_cert (fst (getCerts [(example_draw 1, ''a.localhost''), (example_draw 2, ''b.localhost'')]
                          (ca_loaded example_ca example_cakey)) ! 1)) = Some [''b.localhost'']"
proof -
  have loaded: "caCert (ca_loaded example_ca example_cakey) = Some example_ca \<and>
                caKey (ca_loaded example_ca example_cakey) = Some example_cakey"
    by (simp add: ca_loaded_def)
  have calls: "distinct (map (\<lambda>c. cenv_random (fst c))
                  [(example_draw 1, ''a.localhost''), (example_draw 2, ''b.localhost'')]) \<and>
               0 < length [(example_draw 1, ''a.localhost''), (example_draw 2, ''b.localhost'')] \<and>
               1 < length [(example_draw 1, ''a.localhost''), (example_draw 2, ''b.localhost'')] \<and>
               snd ([(example_draw 1, ''a.localhost''), (example_draw 2, ''b.localhost'')] ! 0) \<noteq>
               snd ([(example_draw 1, ''a.localhost''), (example_draw 2, ''b.localhost'')] ! 1)"
    by (simp add: example_draw_def)
  note both = getCert_cached_and_distinct
    [of "ca_loaded example_ca example_cakey" example_ca example_cakey
        "example_draw 2" "''a.localhost''" "example_draw 1"
        "[(example_draw 1, ''a.localhost''), (example_draw 2, ''b.localhost'')]" 0 1
        example_ca example_cakey]
  have same: "fst (getCert (example_draw 2) ''a.localhost''
          (snd (getCert (example_draw 1) ''a.localhost'' (ca_loaded example_ca example_cakey)))) =
      fst (getCert (example_draw 1) ''a.localhost'' (ca_loaded example_ca example_cakey))"
    using both loaded by blast
  have keys: "result_key (fst (getCerts [(example_draw 1, ''a.localhost''), (example_draw 2, ''b.localhost'')]
                      (ca_loaded example_ca example_cakey)) ! 0) \<noteq>
      result_key (fst (getCerts [(example_draw 1, ''a.localhost''), (example_draw 2, ''b.localhost'')]
                      (ca_loaded example_ca example_cakey)) ! 1)"
    using both calls by blast
  have names: "map_option commonNames
     (result_cert (fst (getCerts [(example_draw 1, ''a.localhost''), (example_draw 2, ''b.localhost'')]
                          (ca_loaded example_ca example_cakey)) ! 1)) =
     Some [snd ([(example_draw 1, ''a.localhost''), (example_draw 2, ''b.localhost'')] ! 1)]"
    using both calls by blast
  show ?thesis
    using same keys names by simp
qed

text \<open>
  Claim C8. With the CA loaded, a call of \<^verbatim>\<open>getCert\<close> for a hostname that is not cached
  returns the encoding of a new key and certificate: the key pair was generated for 2048
  bits; the serial number is the clock reading \<^verbatim>\<open>Date.now()\<close> in hexadecimal; the validity
  runs from the reading of \<^verbatim>\<open>new Date()\<close> to 365 days later; the subject is the common name
  \<open>hostname\<close>, the one DNS alternative name is \<open>hostname\<close>, the issuer is the CA's subject;
  the extensions are \<^verbatim>\<open>basicConstraints\<close> with \<^verbatim>\<open>cA\<close> false, the alternative name,
  \<^verbatim>\<open>keyUsage\<close> with \<^verbatim>\<open>digitalSignature\<close> and \<^verbatim>\<open>keyEncipherment\<close>, and \<^verbatim>\<open>extKeyUsage\<close> with
  \<^verbatim>\<open>serverAuth\<close>; and the certificate is signed with the CA's private key and SHA-256.
\<close>

theorem leaf_certificate_fields:
  assumes "caCert st = Some ca" and "caKey st = Some cakey" and "certCache st hostname = None"
  shows "fst (getCert e hostname st) =
           Some \<lparr>pem_cert = CertificatePem
                              (leaf_certificate ca cakey (generateKeyPair 2048 (cenv_random e)) e hostname),
                 pem_key = PrivateKeyPem (privateKey (generateKeyPair 2048 (cenv_random e)))\<rparr> \<and>
         key_bits (privateKey (generateKeyPair 2048 (cenv_random e))) = 2048 \<and>
         (let c = leaf_certificate ca cakey (generateKeyPair 2048 (cenv_random e)) e hostname in
            cert_publicKey c = publicKey (generateKeyPair 2048 (cenv_random e)) \<and>
            key_bits (cert_publicKey c) = 2048 \<and>
            cert_serialNumber c = toString16 (cenv_dateNow e) \<and>
            cert_notBefore c = cenv_newDate e \<and>
            cert_notAfter c = cenv_newDate e + 365 * 24 * 60 * 60 * 1000 \<and>
            cert_subject c = [(''commonName'', hostname)] \<and>
            commonNames c = [hostname] \<and>
            dnsNames c = [hostname] \<and>
            cert_issuer c = cert_subject ca \<and>
            cert_extensions c =
              [BasicConstraints False, SubjectAltName [(2, hostname)],
               KeyUsage [DigitalSignature, KeyEncipherment], ExtKeyUsage [ServerAuth]] \<and>
            cert_signature c = Some (cakey, Sha256))"
proof -
  have "fst (getCert e hostname st) =
           Some \<lparr>pem_cert = CertificatePem
                              (leaf_certificate ca cakey (generateKeyPair 2048 (cenv_random e)) e hostname),
                 pem_key = PrivateKeyPem (privateKey (generateKeyPair 2048 (cenv_random e)))\<rparr>"
    using assms by (simp add: getCert_miss Let_def)
  moreover have "key_bits (privateKey (generateKeyPair 2048 (cenv_random e))) = 2048"
    by (simp add: generateKeyPair_def)
  moreover have "key_bits (publicKey (generateKeyPair 2048 (cenv_random e))) = 2048"
    by (simp add: generateKeyPair_def)
  ultimately show ?thesis
    by (simp add: Let_def leaf_certificate_def commonNames_def dnsNames_def)
qed

theorem leaf_certificate_fields_witness:
  "fst (getCert (example_draw 7) ''app.localhost'' (ca_loaded example_ca example_cakey)) =
     Some \<lparr>pem_cert = CertificatePem
                        (leaf_certificate example_ca example_cakey
                           (generateKeyPair 2048 (cenv_random (example_draw 7)))
                           (example_draw 7) ''app.localhost''),
           pem_key = PrivateKeyPem (privateKey (generateKeyPair 2048 (cenv_random (example_draw 7))))\<rparr> \<and>
   cert_serialNumber
     (leaf_certificate example_ca example_cakey
        (generateKeyPair 2048 (cenv_random (example_draw 7))) (example_draw 7) ''app.localhost'') =
     ''18bcfe56807'' \<and>
   cert_notAfter
     (leaf_certificate example_ca example_cakey
        (generateKeyPair 2048 (cenv_random (example_draw 7))) (example_draw 7) ''app.localhost'') =
     1731536000008"
proof -
  have ca: "caCert (ca_loaded example_ca example_cakey) = Some example_ca"
    and cakey: "caKey (ca_loaded example_ca example_cakey) = Some example_cakey"
    and miss: "certCache (ca_loaded example_ca example_cakey) ''app.localhost'' = None"
    by (simp_all add: ca_loaded_def)
  have hex: "toString16 (cenv_dateNow (example_draw 7)) = ''18bcfe56807''"
    by (simp add: example_draw_def toString16_def radix_digits.simps digit_char_def)
  have after: "cenv_newDate (example_draw 7) + 365 * 24 * 60 * 60 * 1000 = 1731536000008"
    by (simp add: example_draw_def)
  note fields = leaf_certificate_fields [OF ca cakey miss, of "example_draw 7"]
  have "cert_serialNumber
     (leaf_certificate example_ca example_cakey
        (generateKeyPair 2048 (cenv_random (example_draw 7))) (example_draw 7) ''app.localhost'') =
     toString16 (cenv_dateNow (example_draw 7))"
    using fields by (simp add: Let_def)
  moreover have "cert_notAfter
     (leaf_certificate example_ca example_cakey
        (generateKeyPair 2048 (cenv_random (example_draw 7))) (example_draw 7) ''app.localhost'') =
     cenv_newDate (example_draw 7) + 365 * 24 * 60 * 60 * 1000"
    using fields by (simp add: Let_def)
  moreover have "fst (getCert (example_draw 7) ''app.localhost'' (ca_loaded example_ca example_cakey)) =
     Some \<lparr>pem_cert = CertificatePem
                        (leaf_certificate example_ca example_cakey
                           (generateKeyPair 2048 (cenv_random (example_draw 7)))
                           (example_draw 7) ''app.localhost''),
           pem_key = PrivateKeyPem (privateKey (generateKeyPair 2048 (cenv_random (example_draw 7))))\<rparr>"
    using fields by blast
  ultimately show ?thesis
    using hex after by simp
qed

end
